theory Spec2Isabelle
  imports Complex_Main "HOL-Library.Multiset" "HOL-Library.Sublist"
    "HOL-Library.Char_ord" "HOL-Library.List_Lexorder"
begin

section \<open>ModCacheX: the cache inventory engine of \<^verbatim>\<open>src/ModCacheX.py\<close>\<close>

text \<open>
  The engine is the set of methods of class \<^verbatim>\<open>ModCacheX\<close> that scan the cache directory,
  read a version out of each archive, format sizes, sort and filter the displayed list and
  copy files in. The widgets are reduced to what the methods read and write: the rows of
  the list widget, the status line and the dialogs shown. Every call into the operating
  system or into a library is a field of a record that says what the call returns.

  Conventions. A Python \<^verbatim>\<open>str\<close> is the \<^typ>\<open>string\<close> of its UTF-8 bytes. On these,
  equality, the order, the substring test \<^verbatim>\<open>in\<close>, \<^verbatim>\<open>startswith\<close> and \<^verbatim>\<open>endswith\<close> say
  the same as on the code points. \<^verbatim>\<open>str.lower()\<close> and \<^verbatim>\<open>str.strip()\<close> depend on the
  tables of Unicode; where a method applies them to whole texts (\<^verbatim>\<open>sort_tree\<close>,
  \<^verbatim>\<open>search_mods\<close>) they are taken from the library record below. File sizes are results of
  \<^verbatim>\<open>os.path.getsize\<close> and therefore of type \<^typ>\<open>nat\<close>; the configured cap is user
  input and of type \<^typ>\<open>int\<close>. A Python \<^verbatim>\<open>float\<close> is a \<^typ>\<open>rat\<close>: every float
  that the modelled code computes without raising is an integer below \<open>2 ^ 53\<close> or such an
  integer divided by \<open>2 ^ 20\<close>, as long as sizes stay below \<open>2 ^ 53\<close> bytes, and is
  therefore exact. Paths follow the POSIX rules of \<^verbatim>\<open>os.path\<close>.
\<close>

subsection \<open>Exceptions and library values\<close>

datatype error =
    OSError
  | BadZipFile
  | UnicodeDecodeError
  | TomlDecodeError
  | KeyError string
  | TypeError
  | ValueError
  | AttributeError
  | TclError

text \<open>A value of a parsed metadata document, as the \<^verbatim>\<open>toml\<close> package returns it.\<close>

datatype toml =
    TStr string
  | TInt int
  | TFloat rat
  | TBool bool
  | TDatetime string
  | TArr "toml list"
  | TTab "(string \<times> toml) list"

type_synonym bytes = string

text \<open>
  An opened archive: its members in listing order, each with what opening and reading it
  yields. A name may occur twice; \<^verbatim>\<open>ZipFile.open(name)\<close> then resolves to the last
  member of that name, as \<^verbatim>\<open>NameToInfo\<close> does.
\<close>

type_synonym zipfile = "(string \<times> (error + bytes)) list"

definition namelist :: "zipfile \<Rightarrow> string list" where
  "namelist z = map fst z"

definition zip_read :: "zipfile \<Rightarrow> string \<Rightarrow> error + bytes" where
  "zip_read z n = (case map_of (rev z) n of None \<Rightarrow> Inl (KeyError n) | Some r \<Rightarrow> r)"

text \<open>
  The library calls whose code is not part of the repository: decoding, the parser of the
  metadata format, the text the widget makes of a value that is not a string, and
  \<^verbatim>\<open>str.lower()\<close> and \<^verbatim>\<open>str.strip()\<close> on arbitrary text.
\<close>

record lib =
  decode_utf8 :: "bytes \<Rightarrow> error + string"
  toml_loads :: "string \<Rightarrow> error + (string \<times> toml) list"
  tk_text :: "toml \<Rightarrow> string"
  str_lower :: "string \<Rightarrow> string"
  str_strip :: "string \<Rightarrow> string"

text \<open>
  The file system as one operation sees it. \<^verbatim>\<open>os_walk\<close> gives the triples
  \<^verbatim>\<open>(dirpath, dirnames, filenames)\<close> in the order \<^verbatim>\<open>os.walk\<close> yields them.
\<close>

record world =
  path_exists :: "string \<Rightarrow> bool"
  makedirs :: "string \<Rightarrow> error option"
  os_walk :: "string \<Rightarrow> (string \<times> string list \<times> string list) list"
  isfile :: "string \<Rightarrow> bool"
  getsize :: "string \<Rightarrow> error + nat"
  open_zip :: "string \<Rightarrow> error + zipfile"

subsection \<open>Strings\<close>

text \<open>
  \<^verbatim>\<open>str.lower()\<close> on the letters A to Z, all other bytes unchanged. This is what
  \<^verbatim>\<open>lower()\<close> does on ASCII text. It also decides \<^verbatim>\<open>file.lower().endswith('.jar')\<close> on
  every name, since only the letters J, A and R lower to the letters of the extension,
  and bytes 65 to 90 occur in UTF-8 only as these letters. That test is the one use made
  of it in the program; \<^verbatim>\<open>sort_tree\<close> and \<^verbatim>\<open>search_mods\<close> take \<^verbatim>\<open>lower()\<close> from the
  library. The library of the examples, whose texts are ASCII, is built on it.
\<close>

definition ascii_lower_char :: "char \<Rightarrow> char" where
  "ascii_lower_char c =
     (let n = (of_char c :: nat) in if 65 \<le> n \<and> n \<le> 90 then char_of (n + 32) else c)"

definition ascii_lower :: "string \<Rightarrow> string" where
  "ascii_lower s = map ascii_lower_char s"

text \<open>The ASCII characters that Python counts as white space.\<close>

definition is_space :: "char \<Rightarrow> bool" where
  "is_space c = (let n = (of_char c :: nat) in (9 \<le> n \<and> n \<le> 13) \<or> (28 \<le> n \<and> n \<le> 32))"

text \<open>\<^verbatim>\<open>str.strip()\<close> on ASCII text; used by the library of the examples only.\<close>

definition ascii_strip :: "string \<Rightarrow> string" where
  "ascii_strip s = rev (dropWhile is_space (rev (dropWhile is_space s)))"

text \<open>
  \<^verbatim>\<open>str.split()\<close> without arguments: maximal runs of characters that are not white space.
  It is applied to the cells that \<^verbatim>\<open>format_size\<close> printed, which are ASCII.
\<close>

fun split_from :: "string \<Rightarrow> string \<Rightarrow> string list" where
  "split_from cur [] = (if cur = [] then [] else [cur])"
| "split_from cur (c # cs) =
     (if is_space c then (if cur = [] then split_from [] cs else cur # split_from [] cs)
      else split_from (cur @ [c]) cs)"

definition split_ws :: "string \<Rightarrow> string list" where
  "split_ws s = split_from [] s"

definition startswith :: "string \<Rightarrow> string \<Rightarrow> bool" where
  "startswith s p = prefix p s"

definition endswith :: "string \<Rightarrow> string \<Rightarrow> bool" where
  "endswith s p = suffix p s"

text \<open>\<^verbatim>\<open>a in b\<close> on two strings.\<close>

definition str_in :: "string \<Rightarrow> string \<Rightarrow> bool" where
  "str_in a b = sublist a b"

definition digit_char :: "nat \<Rightarrow> char" where
  "digit_char d = ''0123456789'' ! d"

function str_nat :: "nat \<Rightarrow> string" where
  "str_nat n = (if n < 10 then [digit_char n]
                else str_nat (n div 10) @ [digit_char (n mod 10)])"
  by pat_completeness auto
termination
  by (relation "measure (\<lambda>n. n)") auto

declare str_nat.simps [simp del]

definition is_digit :: "char \<Rightarrow> bool" where
  "is_digit c = (let n = (of_char c :: nat) in 48 \<le> n \<and> n \<le> 57)"

definition digit_val :: "char \<Rightarrow> nat" where
  "digit_val c = of_char c - 48"

definition nat_of_digits :: "string \<Rightarrow> nat" where
  "nat_of_digits ds = foldl (\<lambda>acc c. acc * 10 + digit_val c) 0 ds"

text \<open>
  \<^verbatim>\<open>float(s)\<close> on a plain decimal literal: an optional sign, digits, and an optional
  fraction. This is the only syntax \<^verbatim>\<open>format_size\<close> produces; the other spellings Python
  accepts (an exponent, \<^verbatim>\<open>inf\<close>, \<^verbatim>\<open>nan\<close>, underscores, surrounding blanks) are
  outside this function and it answers \<open>ValueError\<close> on them.
\<close>

definition float_of_digits :: "string \<Rightarrow> error + rat" where
  "float_of_digits body =
     (let ip = takeWhile is_digit body; rest = dropWhile is_digit body in
      case rest of
        [] \<Rightarrow> if ip = [] then Inl ValueError else Inr (of_nat (nat_of_digits ip))
      | c # fp \<Rightarrow>
          if c = CHR ''.'' \<and> list_all is_digit fp \<and> (ip \<noteq> [] \<or> fp \<noteq> [])
          then Inr (of_nat (nat_of_digits ip) + of_nat (nat_of_digits fp) / 10 ^ length fp)
          else Inl ValueError)"

definition py_float :: "string \<Rightarrow> error + rat" where
  "py_float s =
     (case s of
        [] \<Rightarrow> Inl ValueError
      | c # cs \<Rightarrow>
          if c = CHR ''-'' then map_sum id uminus (float_of_digits cs)
          else if c = CHR ''+'' then float_of_digits cs
          else float_of_digits s)"

subsection \<open>Paths\<close>

definition path_join :: "string \<Rightarrow> string \<Rightarrow> string" where
  "path_join a b =
     (if startswith b ''/'' then b
      else if a = [] \<or> endswith a ''/'' then a @ b
      else a @ ''/'' @ b)"

definition basename :: "string \<Rightarrow> string" where
  "basename p = rev (takeWhile (\<lambda>c. c \<noteq> CHR ''/'') (rev p))"

subsection \<open>The data model\<close>

text \<open>Class \<^verbatim>\<open>ModInfo\<close>; field \<^verbatim>\<open>size\<close> is \<open>msize\<close> here.\<close>

record mod_info =
  file_path :: string
  name :: string
  msize :: nat
  version :: "toml option"
  file_name :: string

definition ModInfo :: "string \<Rightarrow> string \<Rightarrow> nat \<Rightarrow> toml option \<Rightarrow> mod_info" where
  "ModInfo fp nm sz ver =
     \<lparr>file_path = fp, name = nm, msize = sz, version = ver, file_name = basename fp\<rparr>"

text \<open>One row of the list widget: the four cells of columns name, version, size and path.\<close>

record row =
  r_name :: string
  r_version :: string
  r_size :: string
  r_path :: string

text \<open>
  The messages of the status line, by kind: ready, loading, the number of entries loaded
  with the printed total size, the warning with the printed total size and the cap, the
  number of files being imported, the number imported, the number of entries found.
\<close>

datatype status =
    Ready
  | Loading
  | Loaded nat string
  | BudgetWarning string int
  | Importing nat
  | Imported nat
  | Found nat

text \<open>The error dialogs of \<^verbatim>\<open>messagebox.showerror\<close>.\<close>

datatype alert =
    CreateDirFailed error
  | ImportFailed "(string \<times> error) list"

text \<open>
  The fields of the application object that the engine reads and writes. \<open>mod_tree\<close> holds
  the rows of the widget in display order, each with its item identifier, \<open>next_iid\<close> is
  the identifier the widget hands out next, and \<open>alerts\<close> lists the dialogs shown so far.
\<close>

record state =
  cache_dir :: string
  max_cache_size :: int
  mods :: "mod_info list"
  selected_mods :: "mod_info list"
  mod_tree :: "(nat \<times> row) list"
  next_iid :: nat
  status_var :: status
  alerts :: "alert list"

subsection \<open>\<^verbatim>\<open>parse_mod_version\<close>\<close>

text \<open>Membership \<^verbatim>\<open>s in v\<close> of a string in a document value; numbers raise.\<close>

fun py_in :: "string \<Rightarrow> toml \<Rightarrow> error + bool" where
  "py_in s (TStr t) = Inr (str_in s t)"
| "py_in s (TArr xs) = Inr (TStr s \<in> set xs)"
| "py_in s (TTab kvs) = Inr (s \<in> set (map fst kvs))"
| "py_in s _ = Inl TypeError"

text \<open>Subscription \<^verbatim>\<open>v[key]\<close> with a string key.\<close>

fun py_getitem :: "toml \<Rightarrow> string \<Rightarrow> error + toml" where
  "py_getitem (TTab kvs) k = (case map_of kvs k of None \<Rightarrow> Inl (KeyError k) | Some v \<Rightarrow> Inr v)"
| "py_getitem _ k = Inl TypeError"

text \<open>Lines 246 to 253: the version that a parsed document declares.\<close>

definition version_of_doc :: "(string \<times> toml) list \<Rightarrow> error + toml option" where
  "version_of_doc data =
     (case map_of data ''mods'' of
        Some (TArr (mod_info # others)) \<Rightarrow>
          (case py_in ''version'' mod_info of
             Inl e \<Rightarrow> Inl e
           | Inr False \<Rightarrow> Inr None
           | Inr True \<Rightarrow>
               (case py_getitem mod_info ''version'' of
                  Inl e \<Rightarrow> Inl e
                | Inr ver \<Rightarrow>
                    (case py_in ''$'' ver of
                       Inl e \<Rightarrow> Inl e
                     | Inr True \<Rightarrow> Inr None
                     | Inr False \<Rightarrow> Inr (Some ver))))
      | _ \<Rightarrow> Inr None)"

definition toml_files :: "zipfile \<Rightarrow> string list" where
  "toml_files z = [f \<leftarrow> namelist z. startswith f ''META-INF/'' \<and> endswith f ''.toml'']"

text \<open>The body of the \<^verbatim>\<open>try\<close> block: \<open>Inl\<close> is an exception raised inside it.\<close>

definition parse_mod_version_body :: "lib \<Rightarrow> world \<Rightarrow> string \<Rightarrow> error + toml option" where
  "parse_mod_version_body L W jar_path =
     (case open_zip W jar_path of
        Inl e \<Rightarrow> Inl e
      | Inr zip_ref \<Rightarrow>
          (case toml_files zip_ref of
             [] \<Rightarrow> Inr None
           | f # fs \<Rightarrow>
               (case zip_read zip_ref f of
                  Inl e \<Rightarrow> Inl e
                | Inr raw \<Rightarrow>
                    (case decode_utf8 L raw of
                       Inl e \<Rightarrow> Inl e
                     | Inr toml_content \<Rightarrow>
                         (case toml_loads L toml_content of
                            Inl e \<Rightarrow> Inl e
                          | Inr data \<Rightarrow> version_of_doc data)))))"

definition parse_mod_version :: "lib \<Rightarrow> world \<Rightarrow> string \<Rightarrow> toml option" where
  "parse_mod_version L W jar_path =
     (case parse_mod_version_body L W jar_path of Inl e \<Rightarrow> None | Inr v \<Rightarrow> v)"

subsection \<open>\<^verbatim>\<open>format_size\<close>\<close>

definition units :: "string list" where
  "units = [''B'', ''KB'', ''MB'', ''GB'', ''TB'']"

text \<open>The \<^verbatim>\<open>while\<close> loop of lines 278 to 280 on the pair of its two variables.\<close>

function format_loop :: "nat \<Rightarrow> nat \<Rightarrow> nat \<times> nat" where
  "format_loop size_bytes unit_index =
     (if size_bytes \<ge> 1024 \<and> unit_index < length units - 1
      then format_loop (size_bytes div 1024) (unit_index + 1)
      else (size_bytes, unit_index))"
  by pat_completeness auto
termination
  by (relation "measure (\<lambda>(s, i). length units - 1 - i)") auto

declare format_loop.simps [simp del]

text \<open>
  \<^verbatim>\<open>f"{n:.2f}"\<close> on an integer: the integer is converted to a float, which is exact
  below \<open>2 ^ 53\<close>, and printed with two decimals.
\<close>

definition fmt_2f :: "nat \<Rightarrow> string" where
  "fmt_2f n = str_nat n @ ''.00''"

definition format_size :: "nat \<Rightarrow> string" where
  "format_size size_bytes =
     (case format_loop size_bytes 0 of
        (v, unit_index) \<Rightarrow> fmt_2f v @ '' '' @ units ! unit_index)"

definition unit_index_of :: "nat \<Rightarrow> nat" where
  "unit_index_of size_bytes = snd (format_loop size_bytes 0)"

subsection \<open>\<^verbatim>\<open>get_cache_size\<close>\<close>

text \<open>The paths \<^verbatim>\<open>os.path.join(dirpath, f)\<close> of every listed file, in the order of the two loops.\<close>

definition walk_paths :: "(string \<times> string list \<times> string list) list \<Rightarrow> string list" where
  "walk_paths triples =
     concat (map (\<lambda>(dirpath, dirnames, filenames). map (path_join dirpath) filenames) triples)"

text \<open>
  The summation of lines 262 to 266. An exception of \<^verbatim>\<open>getsize\<close> leaves both loops
  through the handler of line 267, and the total reached so far is kept.
\<close>

fun sum_sizes :: "world \<Rightarrow> string list \<Rightarrow> nat \<Rightarrow> nat" where
  "sum_sizes W [] total_size = total_size"
| "sum_sizes W (fp # fps) total_size =
     (if isfile W fp
      then (case getsize W fp of
              Inl e \<Rightarrow> total_size
            | Inr n \<Rightarrow> sum_sizes W fps (total_size + n))
      else sum_sizes W fps total_size)"

definition get_cache_size :: "world \<Rightarrow> string \<Rightarrow> nat \<times> string" where
  "get_cache_size W dir =
     (let total_size = sum_sizes W (walk_paths (os_walk W dir)) 0
      in (total_size, format_size total_size))"

subsection \<open>\<^verbatim>\<open>refresh_mod_list\<close>\<close>

definition find_jar_files :: "world \<Rightarrow> string \<Rightarrow> string list" where
  "find_jar_files W dir =
     concat (map (\<lambda>(root, dirs, files).
                    map (path_join root) [f \<leftarrow> files. endswith (ascii_lower f) ''.jar''])
                 (os_walk W dir))"

text \<open>
  The loop of lines 316 to 326. An exception inside the \<^verbatim>\<open>try\<close> (only \<^verbatim>\<open>getsize\<close>
  can raise there) is logged and the file is left out. The slice \<^verbatim>\<open>file_name[:-4]\<close> is
  empty on a name shorter than four characters; on a name that passed the test of the
  extension its last four characters are ASCII, so that the slice drops four bytes.
\<close>

fun load_mods :: "lib \<Rightarrow> world \<Rightarrow> string list \<Rightarrow> mod_info list" where
  "load_mods L W [] = []"
| "load_mods L W (jar_path # rest) =
     (case getsize W jar_path of
        Inl e \<Rightarrow> load_mods L W rest
      | Inr sz \<Rightarrow>
          (let fname = basename jar_path;
               mod_name = take (length fname - 4) fname;
               ver = parse_mod_version L W jar_path
           in ModInfo jar_path mod_name sz ver # load_mods L W rest))"

text \<open>Truth value of a document value in a Boolean context.\<close>

fun truthy :: "toml \<Rightarrow> bool" where
  "truthy (TStr s) = (s \<noteq> [])"
| "truthy (TInt i) = (i \<noteq> 0)"
| "truthy (TFloat x) = (x \<noteq> 0)"
| "truthy (TBool b) = b"
| "truthy (TDatetime d) = True"
| "truthy (TArr xs) = (xs \<noteq> [])"
| "truthy (TTab kvs) = (kvs \<noteq> [])"

text \<open>The label of an unknown version: the two characters U+672A U+77E5 in UTF-8.\<close>

definition unknown_label :: string where
  "unknown_label = map char_of [230, 156, 170, 231, 159, 165 :: nat]"

text \<open>\<^verbatim>\<open>mod.version or unknown_label\<close>, as the text the widget stores.\<close>

definition version_cell :: "lib \<Rightarrow> toml option \<Rightarrow> string" where
  "version_cell L v =
     (case v of
        None \<Rightarrow> unknown_label
      | Some x \<Rightarrow>
          if truthy x then (case x of TStr s \<Rightarrow> s | _ \<Rightarrow> tk_text L x) else unknown_label)"

definition row_of :: "lib \<Rightarrow> mod_info \<Rightarrow> row" where
  "row_of L m =
     \<lparr>r_name = name m, r_version = version_cell L (version m),
      r_size = format_size (msize m), r_path = file_path m\<rparr>"

text \<open>\<^verbatim>\<open>mod_tree.insert("", END, values=...)\<close>: a new item with a fresh identifier at the end.\<close>

definition tree_insert :: "row \<Rightarrow> state \<Rightarrow> state" where
  "tree_insert r s = s\<lparr>mod_tree := mod_tree s @ [(next_iid s, r)], next_iid := next_iid s + 1\<rparr>"

fun insert_rows :: "lib \<Rightarrow> mod_info list \<Rightarrow> state \<Rightarrow> state" where
  "insert_rows L [] s = s"
| "insert_rows L (m # ms) s = insert_rows L ms (tree_insert (row_of L m) s)"

definition refresh_mod_list :: "lib \<Rightarrow> world \<Rightarrow> state \<Rightarrow> state" where
  "refresh_mod_list L W s0 =
     (let s1 = s0\<lparr>status_var := Loading, mod_tree := [], mods := []\<rparr>;
          created = (if \<not> path_exists W (cache_dir s1) then makedirs W (cache_dir s1) else None)
      in case created of
           Some e \<Rightarrow> s1\<lparr>alerts := alerts s1 @ [CreateDirFailed e], status_var := Ready\<rparr>
         | None \<Rightarrow>
             (let jar_files = find_jar_files W (cache_dir s1);
                  (cache_size, cache_size_str) = get_cache_size W (cache_dir s1);
                  s2 = s1\<lparr>mods := load_mods L W jar_files\<rparr>;
                  s3 = insert_rows L (mods s2) s2;
                  s4 = s3\<lparr>status_var := Loaded (length (mods s3)) cache_size_str\<rparr>
              in if max_cache_size s4 > 0
                 then (let cache_size_mb = (of_nat cache_size :: rat) / (1024 * 1024)
                       in if cache_size_mb > of_int (max_cache_size s4)
                          then s4\<lparr>status_var := BudgetWarning cache_size_str (max_cache_size s4)\<rparr>
                          else s4)
                 else s4))"

subsection \<open>\<^verbatim>\<open>sort_tree\<close>\<close>

text \<open>\<^verbatim>\<open>mod_tree.set(k, col)\<close>: the text of one cell.\<close>

definition tree_set :: "row \<Rightarrow> string \<Rightarrow> error + string" where
  "tree_set r col =
     (if col = ''name'' then Inr (r_name r)
      else if col = ''version'' then Inr (r_version r)
      else if col = ''size'' then Inr (r_size r)
      else if col = ''path'' then Inr (r_path r)
      else Inl TclError)"

text \<open>The first exception of a sequence of results, or all the values.\<close>

fun all_or_first_error :: "(error + 'a) list \<Rightarrow> error + 'a list" where
  "all_or_first_error [] = Inr []"
| "all_or_first_error (Inl e # rs) = Inl e"
| "all_or_first_error (Inr v # rs) =
     (case all_or_first_error rs of Inl e \<Rightarrow> Inl e | Inr vs \<Rightarrow> Inr (v # vs))"

text \<open>
  \<^verbatim>\<open>list.sort(key=f)\<close>: the key of every element is computed first, in order, and an
  exception of the key function leaves the sort; the sort itself is stable.
\<close>

definition py_sort_key :: "('a \<Rightarrow> error + 'k::linorder) \<Rightarrow> 'a list \<Rightarrow> error + 'a list" where
  "py_sort_key f xs =
     (case all_or_first_error (map f xs) of
        Inl e \<Rightarrow> Inl e
      | Inr keys \<Rightarrow> Inr (map snd (sort_key fst (zip keys xs))))"

definition size_units :: "(string \<times> nat) list" where
  "size_units = [(''B'', 1), (''KB'', 1024), (''MB'', 1024 * 1024), (''GB'', 1024 * 1024 * 1024)]"

definition convert_size :: "string \<Rightarrow> error + rat" where
  "convert_size size_str =
     (case split_ws size_str of
        [sz, unit] \<Rightarrow>
          (case py_float sz of
             Inl e \<Rightarrow> Inl e
           | Inr x \<Rightarrow>
               (case map_of size_units unit of
                  None \<Rightarrow> Inl (KeyError unit)
                | Some u \<Rightarrow> Inr (x * of_nat u)))
      | _ \<Rightarrow> Inl ValueError)"

text \<open>
  \<^verbatim>\<open>mod_tree.move(k, "", index)\<close>: item \<open>k\<close> is taken out and put back at \<open>index\<close>. The
  identifiers passed by \<^verbatim>\<open>sort_tree\<close> come from \<^verbatim>\<open>get_children\<close>, so the item is always
  found.
\<close>

definition tree_move :: "nat \<Rightarrow> nat \<Rightarrow> (nat \<times> row) list \<Rightarrow> (nat \<times> row) list" where
  "tree_move k i t =
     (case find (\<lambda>item. fst item = k) t of
        None \<Rightarrow> t
      | Some item \<Rightarrow>
          (let others = filter (\<lambda>item. fst item \<noteq> k) t
           in take i others @ item # drop i others))"

fun move_all :: "nat \<Rightarrow> (string \<times> nat) list \<Rightarrow> (nat \<times> row) list \<Rightarrow> (nat \<times> row) list" where
  "move_all i [] t = t"
| "move_all i ((v, k) # items) t = move_all (i + 1) items (tree_move k i t)"

definition sort_tree :: "lib \<Rightarrow> string \<Rightarrow> state \<Rightarrow> error + state" where
  "sort_tree L col s =
     (case all_or_first_error
             (map (\<lambda>(k, r). map_sum id (\<lambda>v. (v, k)) (tree_set r col)) (mod_tree s)) of
        Inl e \<Rightarrow> Inl e
      | Inr items \<Rightarrow>
          (case (if col = ''size''
                 then py_sort_key (\<lambda>x. convert_size (fst x)) items
                 else py_sort_key (\<lambda>x. Inr (str_lower L (fst x))) items) of
             Inl e \<Rightarrow> Inl e
           | Inr sorted_items \<Rightarrow> Inr (s\<lparr>mod_tree := move_all 0 sorted_items (mod_tree s)\<rparr>)))"

subsection \<open>\<^verbatim>\<open>import_mods\<close>\<close>

text \<open>
  What \<^verbatim>\<open>shutil.copy2\<close> does on one file: it succeeds, or it raises and has or has not
  created the destination.
\<close>

datatype copy_outcome = Copied | CopyFailed error bool

text \<open>
  One chosen file: its path, the answer to \<^verbatim>\<open>askyesnocancel\<close> should the dialog be shown
  for it (\<open>Some True\<close> yes, \<open>Some False\<close> no, \<open>None\<close> cancel), and what copying it does.
\<close>

type_synonym import_item = "string \<times> bool option \<times> copy_outcome"

record import_acc =
  success_count :: nat
  fail_count :: nat
  failed_files :: "(string \<times> error) list"
  written :: "string list"

datatype flow = Continue | Break

definition import_copy :: "string \<Rightarrow> string \<Rightarrow> copy_outcome \<Rightarrow> import_acc \<Rightarrow> import_acc" where
  "import_copy src dest_path outcome acc =
     (case outcome of
        Copied \<Rightarrow> acc\<lparr>success_count := success_count acc + 1, written := written acc @ [dest_path]\<rparr>
      | CopyFailed e made \<Rightarrow>
          acc\<lparr>fail_count := fail_count acc + 1,
              failed_files := failed_files acc @ [(src, e)],
              written := (if made then written acc @ [dest_path] else written acc)\<rparr>)"

text \<open>
  The body of the loop of lines 393 to 417 on one file. \<^verbatim>\<open>os.path.exists(dest_path)\<close>
  holds when the path existed before the import or an earlier copy of this import made it.
\<close>

definition import_step :: "world \<Rightarrow> string \<Rightarrow> import_item \<Rightarrow> import_acc \<Rightarrow> flow \<times> import_acc" where
  "import_step W dir item acc =
     (case item of (src, answer, outcome) \<Rightarrow>
        (let fname = basename src;
             dest_path = path_join dir fname
         in if path_exists W dest_path \<or> dest_path \<in> set (written acc)
            then (case answer of
                    None \<Rightarrow> (Break, acc)
                  | Some False \<Rightarrow> (Continue, acc)
                  | Some True \<Rightarrow> (Continue, import_copy src dest_path outcome acc))
            else (Continue, import_copy src dest_path outcome acc)))"

fun import_loop :: "world \<Rightarrow> string \<Rightarrow> import_item list \<Rightarrow> import_acc \<Rightarrow> flow \<times> import_acc" where
  "import_loop W dir [] acc = (Continue, acc)"
| "import_loop W dir (item # items) acc =
     (case import_step W dir item acc of
        (Break, acc') \<Rightarrow> (Break, acc')
      | (Continue, acc') \<Rightarrow> import_loop W dir items acc')"

definition import_start :: import_acc where
  "import_start = \<lparr>success_count = 0, fail_count = 0, failed_files = [], written = []\<rparr>"

text \<open>
  The whole handler. \<open>W\<close> is the file system before the copies and \<open>W'\<close> the one the
  closing rescan sees. The second component is the tally of the loop.
\<close>

definition import_mods ::
  "lib \<Rightarrow> world \<Rightarrow> world \<Rightarrow> import_item list \<Rightarrow> state \<Rightarrow> state \<times> import_acc" where
  "import_mods L W W' files s =
     (if files = [] then (s, import_start)
      else
        (let s1 = s\<lparr>status_var := Importing (length files)\<rparr>;
             acc = snd (import_loop W (cache_dir s1) files import_start);
             s2 = refresh_mod_list L W' s1;
             s3 = (if success_count acc > 0
                   then s2\<lparr>status_var := Imported (success_count acc)\<rparr> else s2);
             s4 = (if fail_count acc > 0
                   then s3\<lparr>alerts := alerts s3 @ [ImportFailed (failed_files acc)]\<rparr> else s3)
         in (s4, acc)))"

subsection \<open>\<^verbatim>\<open>search_mods\<close>\<close>

text \<open>
  \<^verbatim>\<open>mod.version and search_text in mod.version.lower()\<close>: a version that is true in a
  Boolean context and is not a string has no method \<^verbatim>\<open>lower\<close>.
\<close>

definition version_matches :: "lib \<Rightarrow> string \<Rightarrow> toml option \<Rightarrow> error + bool" where
  "version_matches L search_text v =
     (case v of
        None \<Rightarrow> Inr False
      | Some x \<Rightarrow>
          if \<not> truthy x then Inr False
          else (case x of
                  TStr t \<Rightarrow> Inr (str_in search_text (str_lower L t))
                | _ \<Rightarrow> Inl AttributeError))"

text \<open>The condition of the comprehension of lines 546 to 551, with its short circuits.\<close>

definition mod_matches :: "lib \<Rightarrow> string \<Rightarrow> mod_info \<Rightarrow> error + bool" where
  "mod_matches L search_text m =
     (if str_in search_text (str_lower L (name m)) then Inr True
      else (case version_matches L search_text (version m) of
              Inl e \<Rightarrow> Inl e
            | Inr True \<Rightarrow> Inr True
            | Inr False \<Rightarrow>
                Inr (str_in search_text (str_lower L (basename (file_path m))))))"

fun filter_mods :: "lib \<Rightarrow> string \<Rightarrow> mod_info list \<Rightarrow> error + mod_info list" where
  "filter_mods L search_text [] = Inr []"
| "filter_mods L search_text (m # ms) =
     (case mod_matches L search_text m of
        Inl e \<Rightarrow> Inl e
      | Inr keep \<Rightarrow>
          (case filter_mods L search_text ms of
             Inl e \<Rightarrow> Inl e
           | Inr kept \<Rightarrow> Inr (if keep then m # kept else kept)))"

definition search_mods :: "lib \<Rightarrow> world \<Rightarrow> string \<Rightarrow> state \<Rightarrow> error + state" where
  "search_mods L W search_var s =
     (let search_text = str_strip L (str_lower L search_var)
      in if search_text = [] then Inr (refresh_mod_list L W s)
         else (case filter_mods L search_text (mods s) of
                 Inl e \<Rightarrow> Inl e
               | Inr filtered_mods \<Rightarrow>
                   Inr ((insert_rows L filtered_mods (s\<lparr>mod_tree := []\<rparr>))
                          \<lparr>status_var := Found (length filtered_mods)\<rparr>)))"

subsection \<open>Notions used by the statements\<close>

text \<open>
  The number of bytes that the printed size stands for: the printed magnitude times the
  printed unit.
\<close>

definition shown_bytes :: "nat \<Rightarrow> nat" where
  "shown_bytes b = (b div 1024 ^ unit_index_of b) * 1024 ^ unit_index_of b"



text \<open>The size of the file can be read: \<^verbatim>\<open>os.path.getsize\<close> returns a number.\<close>

definition size_readable :: "world \<Rightarrow> string \<Rightarrow> bool" where
  "size_readable W p = (case getsize W p of Inr n \<Rightarrow> True | Inl e \<Rightarrow> False)"

text \<open>
  In the words of the specification: the entry of the file \<open>f\<close> found in directory
  \<open>dirpath\<close> has the size the file system reports, the name of the file without its
  extension of four characters, and the version the metadata reader gives.
\<close>

definition cache_entry :: "lib \<Rightarrow> world \<Rightarrow> string \<Rightarrow> string \<Rightarrow> mod_info" where
  "cache_entry L W dirpath f =
     \<lparr>file_path = path_join dirpath f,
      name = take (length f - 4) f,
      msize = (case getsize W (path_join dirpath f) of Inr n \<Rightarrow> n | Inl e \<Rightarrow> 0),
      version = parse_mod_version L W (path_join dirpath f),
      file_name = f\<rparr>"

text \<open>
  In the words of the specification: the name ends, without regard to case, with the
  archive extension.
\<close>

definition is_archive_name :: "string \<Rightarrow> bool" where
  "is_archive_name f = (4 \<le> length f \<and> ascii_lower (drop (length f - 4) f) = ''.jar'')"

text \<open>
  In the words of the specification: the text occurs, without regard to case, in the
  display name, in the version when there is one, or in the raw file name. The text is
  taken as given here; the entry fields are lower-cased by \<^verbatim>\<open>str.lower()\<close>.
\<close>

definition entry_matches :: "lib \<Rightarrow> string \<Rightarrow> mod_info \<Rightarrow> bool" where
  "entry_matches L t m =
     (str_in t (str_lower L (name m))
      \<or> (case version m of Some (TStr v) \<Rightarrow> str_in t (str_lower L v) | _ \<Rightarrow> False)
      \<or> str_in t (str_lower L (basename (file_path m))))"

text \<open>
  The fields as \<^verbatim>\<open>__init__\<close> and \<^verbatim>\<open>create_ui\<close> set them, before the configuration is
  read and the list is filled for the first time.
\<close>

definition init_state :: state where
  "init_state =
     \<lparr>cache_dir = ''.modcache'', max_cache_size = 0, mods = [], selected_mods = [],
      mod_tree = [], next_iid = 1, status_var = Ready, alerts = []\<rparr>"

text \<open>
  A library for the examples, whose texts are ASCII. The byte FF alone is not valid
  UTF-8, all other contents decode to themselves. Four documents are known to the parser:
  two declare the versions 1.2.3 and 2.0.0 in their first \<^verbatim>\<open>[[mods]]\<close> table, the third
  declares the placeholder that a build script left unexpanded, and the fourth declares
  an array of two numbers as its version.
\<close>

definition example_lib :: lib where
  "example_lib =
     \<lparr>decode_utf8 = (\<lambda>raw. if raw = [CHR 0xFF] then Inl UnicodeDecodeError else Inr raw),
      toml_loads = (\<lambda>content.
        if content = ''[[mods]] version = 1.2.3''
        then Inr [(''mods'', TArr [TTab [(''version'', TStr ''1.2.3'')]])]
        else if content = ''[[mods]] version = 2.0.0''
        then Inr [(''mods'', TArr [TTab [(''version'', TStr ''2.0.0'')]])]
        else if content = ''[[mods]] version = ${project.version}''
        then Inr [(''mods'', TArr [TTab [(''version'', TStr ''${project.version}'')]])]
        else if content = ''[[mods]] version = [1, 2]''
        then Inr [(''mods'', TArr [TTab [(''version'', TArr [TInt 1, TInt 2])]])]
        else Inl TomlDecodeError),
      tk_text = (\<lambda>v. ''?''),
      str_lower = ascii_lower,
      str_strip = ascii_strip\<rparr>"

text \<open>
  A file system for the examples. The cache directory holds \<^verbatim>\<open>A.jar\<close> with a metadata
  entry that declares version 1.2.3, \<^verbatim>\<open>B.jar\<close> without a metadata entry and a text file;
  the three sizes add up to 11 MB. Outside the directory lie archives whose metadata
  entry holds a placeholder, cannot be read, cannot be decoded and cannot be parsed, an
  archive with two members of the same name, and one whose version is an array.
\<close>

definition example_sizes :: "(string \<times> nat) list" where
  "example_sizes =
     [(''.modcache/A.jar'', 2048), (''.modcache/B.jar'', 512),
      (''.modcache/notes.txt'', 11 * 1024 * 1024 - 2560)]"

definition example_archives :: "(string \<times> zipfile) list" where
  "example_archives =
     [(''.modcache/A.jar'',
         [(''META-INF/MANIFEST.MF'', Inr ''Manifest-Version: 1.0''),
          (''META-INF/mods.toml'', Inr ''[[mods]] version = 1.2.3'')]),
      (''.modcache/B.jar'', [(''META-INF/MANIFEST.MF'', Inr ''Manifest-Version: 1.0'')]),
      (''dev/placeholder.jar'',
         [(''META-INF/mods.toml'', Inr ''[[mods]] version = ${project.version}'')]),
      (''dev/corrupt.jar'', [(''META-INF/mods.toml'', Inl BadZipFile)]),
      (''dev/latin.jar'', [(''META-INF/mods.toml'', Inr [CHR 0xFF])]),
      (''dev/syntax.jar'', [(''META-INF/mods.toml'', Inr ''mods = ['')]),
      (''dev/twice.jar'',
         [(''META-INF/mods.toml'', Inr ''[[mods]] version = 1.2.3''),
          (''META-INF/mods.toml'', Inr ''[[mods]] version = 2.0.0'')]),
      (''dev/array.jar'', [(''META-INF/mods.toml'', Inr ''[[mods]] version = [1, 2]'')])]"

definition example_world :: world where
  "example_world =
     \<lparr>path_exists = (\<lambda>p. p = ''.modcache'' \<or> p \<in> set (map fst example_sizes)),
      makedirs = (\<lambda>p. None),
      os_walk = (\<lambda>d. if d = ''.modcache''
                       then [(''.modcache'', [], [''A.jar'', ''B.jar'', ''notes.txt''])]
                       else []),
      isfile = (\<lambda>p. p \<in> set (map fst example_sizes)),
      getsize = (\<lambda>p. case map_of example_sizes p of None \<Rightarrow> Inl OSError | Some n \<Rightarrow> Inr n),
      open_zip = (\<lambda>p. case map_of example_archives p of
                          None \<Rightarrow> Inl BadZipFile
                        | Some z \<Rightarrow> Inr z)\<rparr>"

text \<open>A file system in which the cache directory is missing and cannot be created.\<close>

definition readonly_world :: world where
  "readonly_world =
     \<lparr>path_exists = (\<lambda>p. False),
      makedirs = (\<lambda>p. Some OSError),
      os_walk = (\<lambda>d. []),
      isfile = (\<lambda>p. False),
      getsize = (\<lambda>p. Inl OSError),
      open_zip = (\<lambda>p. Inl OSError)\<rparr>"

text \<open>
  A cache directory with three entries that the walk lists as files: a regular archive, a
  socket whose name ends like an archive (its size is read as 0 and it cannot be opened),
  and a regular archive that is removed before its size is read.
\<close>

definition odd_world :: world where
  "odd_world =
     \<lparr>path_exists = (\<lambda>p. p = ''.modcache'' \<or> p = ''.modcache/A.jar'' \<or> p = ''.modcache/sock.jar''),
      makedirs = (\<lambda>p. None),
      os_walk = (\<lambda>d. if d = ''.modcache''
                       then [(''.modcache'', [], [''A.jar'', ''sock.jar'', ''gone.jar''])]
                       else []),
      isfile = (\<lambda>p. p = ''.modcache/A.jar'' \<or> p = ''.modcache/gone.jar''),
      getsize = (\<lambda>p. if p = ''.modcache/A.jar'' then Inr 2048
                       else if p = ''.modcache/sock.jar'' then Inr 0
                       else Inl OSError),
      open_zip = (\<lambda>p. if p = ''.modcache/sock.jar'' then Inl OSError else Inl BadZipFile)\<rparr>"

text \<open>
  A cache directory with a subdirectory, in which two files have the archive extension
  written with capitals and two others only resemble archives.
\<close>

definition capitals_world :: world where
  "capitals_world =
     \<lparr>path_exists = (\<lambda>p. True),
      makedirs = (\<lambda>p. None),
      os_walk = (\<lambda>d. if d = ''.modcache''
                       then [(''.modcache'', [''sub''], [''Forge.JAR'', ''jar'']),
                             (''.modcache/sub'', [], [''Old.Jar'', ''list.jars''])]
                       else []),
      isfile = (\<lambda>p. True),
      getsize = (\<lambda>p. Inr 100),
      open_zip = (\<lambda>p. Inl BadZipFile)\<rparr>"

section \<open>Properties\<close>

subsection \<open>Size formatting\<close>

lemma format_loop_spec:
  "i \<le> 4 \<Longrightarrow> format_loop s i = (v, k) \<Longrightarrow>
     i \<le> k \<and> k \<le> 4 \<and> v = s div 1024 ^ (k - i) \<and> (k < 4 \<longrightarrow> v < 1024)
     \<and> (\<forall>j. j < k - i \<longrightarrow> 1024 \<le> s div 1024 ^ j)"
proof (induction s i arbitrary: v k rule: format_loop.induct)
  case (1 s i)
  show ?case
  proof (cases "s \<ge> 1024 \<and> i < length units - 1")
    case True
    then have i3: "i < 4" by (simp add: units_def)
    have "format_loop s i = format_loop (s div 1024) (i + 1)"
      using True by (subst format_loop.simps) auto
    with "1.prems"(2) have rec: "format_loop (s div 1024) (i + 1) = (v, k)" by simp
    from i3 have "i + 1 \<le> 4" by simp
    from "1.IH" [OF True this rec]
    have ih: "i + 1 \<le> k" "k \<le> 4" "v = (s div 1024) div 1024 ^ (k - (i + 1))"
        "k < 4 \<longrightarrow> v < 1024"
        "\<forall>j. j < k - (i + 1) \<longrightarrow> 1024 \<le> (s div 1024) div 1024 ^ j"
      by auto
    from ih(1) have ki: "k - i = Suc (k - (i + 1))" by simp
    have v: "v = s div 1024 ^ (k - i)"
      unfolding ki using ih(3) by (simp add: div_mult2_eq)
    have low: "\<forall>j. j < k - i \<longrightarrow> 1024 \<le> s div 1024 ^ j"
    proof (intro allI impI)
      fix j assume j: "j < k - i"
      show "1024 \<le> s div 1024 ^ j"
      proof (cases j)
        case 0
        with True show ?thesis by simp
      next
        case (Suc j')
        with j ki have "j' < k - (i + 1)" by simp
        with ih(5) have "1024 \<le> (s div 1024) div 1024 ^ j'" by blast
        with Suc show ?thesis by (simp add: div_mult2_eq)
      qed
    qed
    from ih(1,2,4) v low show ?thesis by simp
  next
    case False
    have "format_loop s i = (s, i)"
      using False by (subst format_loop.simps) auto
    with "1.prems"(2) have eq: "v = s" "k = i" by simp_all
    from False "1.prems"(1) have "i < 4 \<longrightarrow> s < 1024" by (auto simp: units_def)
    with eq "1.prems"(1) show ?thesis by simp
  qed
qed

lemma format_loop_0:
  "format_loop b 0 = (b div 1024 ^ unit_index_of b, unit_index_of b)"
  using format_loop_spec [of 0 b "fst (format_loop b 0)" "snd (format_loop b 0)"]
  by (simp add: unit_index_of_def prod_eq_iff)

lemma unit_index_props:
  "unit_index_of b \<le> 4"
  "unit_index_of b < 4 \<Longrightarrow> b div 1024 ^ unit_index_of b < 1024"
  "j < unit_index_of b \<Longrightarrow> 1024 \<le> b div 1024 ^ j"
  using format_loop_spec [of 0 b "fst (format_loop b 0)" "snd (format_loop b 0)"]
  by (simp_all add: unit_index_of_def)

lemma unit_index_mono:
  assumes "b \<le> b'"
  shows "unit_index_of b \<le> unit_index_of b'"
proof (rule ccontr)
  assume "\<not> ?thesis"
  then have lt: "unit_index_of b' < unit_index_of b" by simp
  with unit_index_props(1) [of b] have "unit_index_of b' < 4" by simp
  then have small: "b' div 1024 ^ unit_index_of b' < 1024" by (rule unit_index_props(2))
  from lt have "1024 \<le> b div 1024 ^ unit_index_of b'" by (rule unit_index_props(3))
  also from assms have "\<dots> \<le> b' div 1024 ^ unit_index_of b'" by (rule div_le_mono)
  finally show False using small by simp
qed

lemma format_size_eq:
  "format_size b = fmt_2f (b div 1024 ^ unit_index_of b) @ '' '' @ units ! unit_index_of b"
  by (simp add: format_size_def format_loop_0)

subsection \<open>Printing a size and reading it back\<close>

lemma digit_cases: "d < 10 \<Longrightarrow> d = 0 \<or> d = 1 \<or> d = 2 \<or> d = 3 \<or> d = 4 \<or> d = 5 \<or> d = 6 \<or> d = 7 \<or> d = 8 \<or> d = (9::nat)"
  by arith

lemma digit_char_props:
  assumes "d < 10"
  shows "digit_val (digit_char d) = d" "is_digit (digit_char d)"
  using digit_cases [OF assms]
  by (auto simp: digit_char_def digit_val_def is_digit_def)

lemma is_digit_not_space: "is_digit c \<Longrightarrow> \<not> is_space c"
  by (simp add: is_digit_def is_space_def Let_def)

lemma is_digit_not_sign: "is_digit c \<Longrightarrow> c \<noteq> CHR ''-'' \<and> c \<noteq> CHR ''+'' \<and> c \<noteq> CHR ''.''"
  by (auto simp: is_digit_def)

lemma str_nat_digits: "list_all is_digit (str_nat n)"
proof (induction n rule: str_nat.induct)
  case (1 n)
  show ?case
  proof (cases "n < 10")
    case True
    then show ?thesis by (subst str_nat.simps) (simp add: digit_char_props)
  next
    case False
    with 1 show ?thesis by (subst str_nat.simps) (simp add: digit_char_props)
  qed
qed

lemma str_nat_nonempty: "str_nat n \<noteq> []"
  by (subst str_nat.simps) simp

lemma nat_of_digits_snoc: "nat_of_digits (ds @ [c]) = nat_of_digits ds * 10 + digit_val c"
  by (simp add: nat_of_digits_def)

lemma nat_of_digits_str_nat: "nat_of_digits (str_nat n) = n"
proof (induction n rule: str_nat.induct)
  case (1 n)
  show ?case
  proof (cases "n < 10")
    case True
    then show ?thesis
      by (subst str_nat.simps) (simp add: nat_of_digits_def digit_char_props)
  next
    case False
    with 1 show ?thesis
      by (subst str_nat.simps) (simp add: nat_of_digits_snoc digit_char_props)
  qed
qed

lemma float_of_digits_fmt_2f: "float_of_digits (fmt_2f v) = Inr (of_nat v)"
proof -
  have all: "\<forall>c \<in> set (str_nat v). is_digit c"
    using str_nat_digits [of v] by (simp add: list_all_iff)
  have dot: "\<not> is_digit CHR ''.''" by (simp add: is_digit_def)
  have tw: "takeWhile is_digit (str_nat v @ ''.00'') = str_nat v"
    using all dot by (simp add: takeWhile_append2 del: takeWhile_append)
  have dw: "dropWhile is_digit (str_nat v @ ''.00'') = ''.00''"
    using all dot by (simp add: dropWhile_append2 del: dropWhile_append)
  have z: "list_all is_digit ''00''" "nat_of_digits ''00'' = 0"
    by (simp_all add: is_digit_def nat_of_digits_def digit_val_def)
  show ?thesis
    by (simp add: float_of_digits_def fmt_2f_def tw dw z nat_of_digits_str_nat is_digit_def)
qed

lemma py_float_fmt_2f: "py_float (fmt_2f v) = Inr (of_nat v)"
proof -
  obtain c cs where s: "str_nat v = c # cs"
    using str_nat_nonempty [of v] by (cases "str_nat v") auto
  with str_nat_digits [of v] have "is_digit c" by simp
  then have "c \<noteq> CHR ''-''" "c \<noteq> CHR ''+''" using is_digit_not_sign by blast+
  moreover have "fmt_2f v = c # (cs @ ''.00'')" by (simp add: fmt_2f_def s)
  ultimately have "py_float (fmt_2f v) = float_of_digits (fmt_2f v)"
    by (simp add: py_float_def)
  then show ?thesis by (simp add: float_of_digits_fmt_2f)
qed

lemma split_from_word:
  "\<forall>c \<in> set w. \<not> is_space c \<Longrightarrow> split_from cur (w @ rest) = split_from (cur @ w) rest"
  by (induction w arbitrary: cur) simp_all

lemma split_ws_two:
  assumes "\<forall>c \<in> set a. \<not> is_space c" "a \<noteq> []" "\<forall>c \<in> set b. \<not> is_space c" "b \<noteq> []"
  shows "split_ws (a @ '' '' @ b) = [a, b]"
proof -
  have sp: "is_space CHR '' ''" by (simp add: is_space_def)
  have "split_ws (a @ '' '' @ b) = split_from a ('' '' @ b)"
    using split_from_word [OF assms(1), of "[]"] by (simp add: split_ws_def)
  also have "\<dots> = a # split_from [] b" using sp assms(2) by simp
  also have "split_from [] b = split_from b []"
    using split_from_word [OF assms(3), of "[]" "[]"] by simp
  also have "\<dots> = [b]" using assms(4) by simp
  finally show ?thesis .
qed

lemma fmt_2f_no_space: "\<forall>c \<in> set (fmt_2f v). \<not> is_space c"
proof -
  have "\<forall>c \<in> set (str_nat v). \<not> is_space c"
    using str_nat_digits [of v] is_digit_not_space by (auto simp: list_all_iff)
  moreover have "\<forall>c \<in> set ''.00''. \<not> is_space c" by (simp add: is_space_def)
  ultimately show ?thesis by (auto simp: fmt_2f_def)
qed

lemma index_cases: "k \<le> 4 \<Longrightarrow> k = 0 \<or> k = 1 \<or> k = 2 \<or> k = 3 \<or> k = (4::nat)"
  by arith

lemma units_no_space: "k \<le> 4 \<Longrightarrow> (\<forall>c \<in> set (units ! k). \<not> is_space c) \<and> units ! k \<noteq> []"
  by (drule index_cases) (auto simp: units_def is_space_def)

lemma size_units_lookup:
  "k \<le> 4 \<Longrightarrow> map_of size_units (units ! k) = (if k < 4 then Some (1024 ^ k) else None)"
  by (drule index_cases) (auto simp: units_def size_units_def)

lemma units_TB: "units ! 4 = ''TB''"
  by (simp add: units_def)

lemma convert_size_format_size:
  "convert_size (format_size b) =
     (if unit_index_of b < 4 then Inr (of_nat (shown_bytes b)) else Inl (KeyError ''TB''))"
proof -
  let ?k = "unit_index_of b"
  let ?v = "b div 1024 ^ ?k"
  have k4: "?k \<le> 4" by (rule unit_index_props(1))
  have fs: "format_size b = fmt_2f ?v @ '' '' @ units ! ?k" by (rule format_size_eq)
  have sp: "split_ws (format_size b) = [fmt_2f ?v, units ! ?k]"
    unfolding fs using fmt_2f_no_space units_no_space [OF k4]
    by (intro split_ws_two) (auto simp: fmt_2f_def)
  show ?thesis
  proof (cases "?k < 4")
    case True
    then show ?thesis
      by (simp add: convert_size_def sp py_float_fmt_2f size_units_lookup [OF k4] shown_bytes_def)
  next
    case False
    with k4 have "?k = 4" by simp
    then show ?thesis
      using size_units_lookup [OF k4]
      by (simp add: convert_size_def sp py_float_fmt_2f units_TB)
  qed
qed

lemma unit_index_lt4: "unit_index_of b < 4 \<longleftrightarrow> b < 1024 ^ 4"
proof
  assume k: "unit_index_of b < 4"
  then have "b div 1024 ^ unit_index_of b < 1024" by (rule unit_index_props(2))
  then have "b < 1024 * 1024 ^ unit_index_of b"
    by (simp add: less_mult_imp_div_less div_less_iff_less_mult)
  also have "\<dots> = 1024 ^ Suc (unit_index_of b)" by simp
  also from k have "\<dots> \<le> (1024::nat) ^ 4"
    by (intro power_increasing) simp_all
  finally show "b < 1024 ^ 4" .
next
  assume b: "b < 1024 ^ 4"
  show "unit_index_of b < 4"
  proof (rule ccontr)
    assume "\<not> unit_index_of b < 4"
    then have "3 < unit_index_of b" by simp
    then have "1024 \<le> b div 1024 ^ 3" by (rule unit_index_props(3))
    then have "1024 * 1024 ^ 3 \<le> b" by (simp add: less_eq_div_iff_mult_less_eq)
    with b show False by simp
  qed
qed

text \<open>
  Claim C8. For every byte count \<open>b\<close>, \<^verbatim>\<open>format_size\<close> prints \<open>b div 1024 ^ k\<close> with two
  decimals, a blank and the \<open>k\<close>-th unit, and the printed number reads back as that value.
  Here \<open>k\<close> is the number of floor divisions by 1024 that bring the value below 1024, at
  most 4. The printed magnitude \<open>v\<close> satisfies \<open>v * 1024 ^ k \<le> b < (v + 1) * 1024 ^ k\<close>, and
  \<open>k\<close> does not decrease when \<open>b\<close> grows.
\<close>

theorem format_size_floor_unit:
  "format_size b = fmt_2f (b div 1024 ^ unit_index_of b) @ '' '' @ units ! unit_index_of b
   \<and> py_float (fmt_2f (b div 1024 ^ unit_index_of b)) = Inr (of_nat (b div 1024 ^ unit_index_of b))
   \<and> unit_index_of b \<le> 4
   \<and> unit_index_of b < length units
   \<and> (\<forall>j < unit_index_of b. 1024 \<le> b div 1024 ^ j)
   \<and> (unit_index_of b < 4 \<longrightarrow> b div 1024 ^ unit_index_of b < 1024)
   \<and> (b div 1024 ^ unit_index_of b) * 1024 ^ unit_index_of b \<le> b
   \<and> b < (b div 1024 ^ unit_index_of b + 1) * 1024 ^ unit_index_of b
   \<and> (\<forall>b'. b \<le> b' \<longrightarrow> unit_index_of b \<le> unit_index_of b')"
proof -
  have u: "unit_index_of b < length units"
    using unit_index_props(1) [of b] by (simp add: units_def)
  have up: "b < (b div 1024 ^ unit_index_of b + 1) * 1024 ^ unit_index_of b"
    using dividend_less_times_div [of "1024 ^ unit_index_of b" b] by (simp add: algebra_simps)
  have low: "\<forall>j < unit_index_of b. 1024 \<le> b div 1024 ^ j"
    using unit_index_props(3) by blast
  have mono: "\<forall>b'. b \<le> b' \<longrightarrow> unit_index_of b \<le> unit_index_of b'"
    using unit_index_mono by blast
  show ?thesis
    using format_size_eq [of b] unit_index_props(1,2) [of b] u up low mono
    by (simp add: py_float_fmt_2f)
qed

theorem format_size_floor_unit_witness:
  "format_size 5000000 = ''4.00 MB'' \<and> py_float ''4.00'' = Inr 4 \<and> unit_index_of 5000000 = 2
   \<and> 1024 \<le> (5000000 :: nat) div 1024 ^ 1
   \<and> (5000000 :: nat) div 1024 ^ 2 < 1024
   \<and> unit_index_of 5000000 \<le> unit_index_of 6000000"
proof -
  have k: "unit_index_of 5000000 = 2"
    by (simp add: unit_index_of_def format_loop.simps units_def)
  have le: "(5000000 :: nat) \<le> 6000000" by simp
  have one: "(1 :: nat) < 2" by simp
  show ?thesis
    using format_size_floor_unit [of 5000000] k le one
    by (simp add: fmt_2f_def str_nat.simps digit_char_def units_def)
qed

subsection \<open>Sorting the rows\<close>

lemma all_or_first_error_Inr: "all_or_first_error (map (\<lambda>x. Inr (g x)) xs) = Inr (map g xs)"
  by (induction xs) simp_all

lemma all_or_first_error_Inl:
  "\<forall>r \<in> set rs. r = Inl e \<or> (\<exists>v. r = Inr v) \<Longrightarrow> \<exists>r \<in> set rs. r = Inl e \<Longrightarrow>
     all_or_first_error rs = Inl e"
proof (induction rs)
  case Nil
  then show ?case by simp
next
  case (Cons r rs)
  show ?case
  proof (cases r)
    case (Inl e')
    with Cons.prems(1) show ?thesis by simp
  next
    case (Inr v)
    with Cons.prems have "\<exists>r \<in> set rs. r = Inl e" by auto
    with Cons.IH Cons.prems(1) have "all_or_first_error rs = Inl e" by simp
    with Inr show ?thesis by simp
  qed
qed

lemma insort_key_order_cong:
  "(\<And>y. y \<in> set ys \<Longrightarrow> (f x \<le> f y \<longleftrightarrow> g x \<le> g y)) \<Longrightarrow>
     insort_key f x ys = insort_key g x ys"
  by (induction ys) simp_all

lemma sort_key_order_cong:
  "(\<And>x y. x \<in> set xs \<Longrightarrow> y \<in> set xs \<Longrightarrow> (f x \<le> f y \<longleftrightarrow> g x \<le> g y)) \<Longrightarrow>
     sort_key f xs = sort_key g xs"
proof (induction xs)
  case Nil
  then show ?case by simp
next
  case (Cons x xs)
  have ih: "sort_key f xs = sort_key g xs"
    by (rule Cons.IH) (simp add: Cons.prems)
  have "insort_key f x (sort_key g xs) = insort_key g x (sort_key g xs)"
    by (rule insort_key_order_cong) (simp add: Cons.prems)
  with ih show ?case by simp
qed

lemma insort_key_map: "insort_key f (h x) (map h ys) = map h (insort_key (\<lambda>z. f (h z)) x ys)"
  by (induction ys) simp_all

lemma sort_key_map: "sort_key f (map h xs) = map h (sort_key (\<lambda>z. f (h z)) xs)"
  by (induction xs) (simp_all add: insort_key_map)

lemma py_sort_key_total:
  assumes "\<And>x. x \<in> set xs \<Longrightarrow> f x = Inr (g x)"
  shows "py_sort_key f xs = Inr (sort_key g xs)"
proof -
  have "map f xs = map (\<lambda>x. Inr (g x)) xs" using assms by simp
  then have keys: "all_or_first_error (map f xs) = Inr (map g xs)"
    by (simp only: all_or_first_error_Inr)
  have "zip (map g xs) xs = map (\<lambda>x. (g x, x)) xs"
    by (induction xs) simp_all
  then have "map snd (sort_key fst (zip (map g xs) xs)) = sort_key g xs"
    by (simp add: sort_key_map comp_def)
  with keys show ?thesis by (simp add: py_sort_key_def)
qed

lemma find_by_key:
  "distinct (map fst t) \<Longrightarrow> x \<in> set t \<Longrightarrow> find (\<lambda>item. fst item = fst x) t = Some x"
  by (induction t) (auto simp: image_iff rev_image_eqI)

lemma tree_move_front:
  assumes d: "distinct (map fst (pre @ r))" and x: "x \<in> set r"
  shows "tree_move (fst x) (length pre) (pre @ r) =
           pre @ x # filter (\<lambda>item. fst item \<noteq> fst x) r"
proof -
  have f: "find (\<lambda>item. fst item = fst x) (pre @ r) = Some x"
    using d x by (intro find_by_key) simp_all
  have "\<forall>p \<in> set pre. fst p \<noteq> fst x" using d x by (auto simp: image_iff)
  then have "filter (\<lambda>item. fst item \<noteq> fst x) pre = pre" by (simp add: filter_id_conv)
  then show ?thesis by (simp add: tree_move_def f)
qed

lemma move_all_perm:
  "distinct (map fst (pre @ q)) \<Longrightarrow> mset r = mset q \<Longrightarrow> map snd its = map fst q \<Longrightarrow>
     move_all (length pre) its (pre @ r) = pre @ q"
proof (induction q arbitrary: pre r its)
  case Nil
  then show ?case by simp
next
  case (Cons x q)
  from Cons.prems(3) obtain v its' where its: "its = (v, fst x) # its'" "map snd its' = map fst q"
    by (cases its) auto
  from Cons.prems(2) have xr: "x \<in> set r" by (metis list.set_intros(1) mset_eq_setD)
  have "mset (map fst (pre @ r)) = mset (map fst (pre @ x # q))"
    using Cons.prems(2) by simp
  with Cons.prems(1) have dr: "distinct (map fst (pre @ r))"
    by (metis mset_eq_imp_distinct_iff)
  let ?r' = "filter (\<lambda>item. fst item \<noteq> fst x) r"
  have mv: "tree_move (fst x) (length pre) (pre @ r) = (pre @ [x]) @ ?r'"
    using tree_move_front [OF dr xr] by simp
  have qx: "\<forall>y \<in> set q. fst y \<noteq> fst x" using Cons.prems(1) by (auto simp: image_iff)
  have "mset ?r' = filter_mset (\<lambda>item. fst item \<noteq> fst x) (mset r)"
    by simp
  also have "\<dots> = filter_mset (\<lambda>item. fst item \<noteq> fst x) (mset (x # q))"
    by (simp only: Cons.prems(2))
  also have "\<dots> = mset (filter (\<lambda>item. fst item \<noteq> fst x) q)" by simp
  also have "\<dots> = mset q" using qx by (simp add: filter_id_conv)
  finally have mr: "mset ?r' = mset q" .
  have dq: "distinct (map fst ((pre @ [x]) @ q))" using Cons.prems(1) by simp
  have "move_all (length (pre @ [x])) its' ((pre @ [x]) @ ?r') = (pre @ [x]) @ q"
    by (rule Cons.IH [OF dq mr its(2)])
  then show ?case by (simp add: its mv)
qed

lemma insert_rows_eq:
  "insert_rows L ms s =
     s\<lparr>next_iid := next_iid s + length ms,
       mod_tree := mod_tree s @ map (\<lambda>im. (fst im, row_of L (snd im)))
                                    (zip [next_iid s ..< next_iid s + length ms] ms)\<rparr>"
proof (induction ms arbitrary: s)
  case Nil
  then show ?case by simp
next
  case (Cons m ms)
  have "[next_iid s ..< Suc (next_iid s + length ms)]
          = next_iid s # [Suc (next_iid s) ..< Suc (next_iid s + length ms)]"
    by (subst upt_rec) simp
  then show ?case by (simp add: Cons.IH tree_insert_def del: upt_Suc)
qed

lemma row_items:
  "map (\<lambda>(k, r). map_sum id (\<lambda>v. (v, k)) (tree_set r ''size''))
       (map (\<lambda>im. (fst im, row_of L (snd im))) ims)
     = map (\<lambda>im. Inr (format_size (msize (snd im)), fst im)) ims"
  by (simp add: tree_set_def row_of_def)

lemma sort_tree_size_rows:
  assumes d: "distinct (map fst ims)"
    and small: "\<forall>im \<in> set ims. msize (snd im) < 1024 ^ 4"
  shows "sort_tree L ''size'' (s\<lparr>mod_tree := map (\<lambda>im. (fst im, row_of L (snd im))) ims\<rparr>)
           = Inr (s\<lparr>mod_tree := map (\<lambda>im. (fst im, row_of L (snd im)))
                       (sort_key (\<lambda>im. shown_bytes (msize (snd im))) ims)\<rparr>)"
proof -
  let ?show = "\<lambda>im. (fst im, row_of L (snd im))"
  let ?item = "\<lambda>im. (format_size (msize (snd im)), fst im)"
  let ?key = "\<lambda>im. shown_bytes (msize (snd im))"
  let ?rkey = "\<lambda>x. (of_nat (shown_bytes (msize (snd x))) :: rat)"
  let ?g = "\<lambda>x :: string \<times> nat. (case convert_size (fst x) of Inr v \<Rightarrow> v | Inl e \<Rightarrow> (0 :: rat))"
  have items: "all_or_first_error
        (map (\<lambda>(k, r). map_sum id (\<lambda>v. (v, k)) (tree_set r ''size'')) (map ?show ims))
        = Inr (map ?item ims)"
    unfolding row_items by (rule all_or_first_error_Inr)
  have conv: "\<And>x. x \<in> set (map ?item ims) \<Longrightarrow> convert_size (fst x) = Inr (?g x)"
    using small by (auto simp: convert_size_format_size unit_index_lt4)
  have sorted_items: "py_sort_key (\<lambda>x. convert_size (fst x)) (map ?item ims)
                        = Inr (sort_key ?g (map ?item ims))"
    by (rule py_sort_key_total) (rule conv)
  have "sort_key ?g (map ?item ims) = map ?item (sort_key (\<lambda>z. ?g (?item z)) ims)"
    by (rule sort_key_map)
  also have "sort_key (\<lambda>z. ?g (?item z)) ims = sort_key ?key ims"
  proof (rule sort_key_order_cong)
    fix x y assume "x \<in> set ims" "y \<in> set ims"
    with small have "?g (?item x) = ?rkey x" "?g (?item y) = ?rkey y"
      by (simp_all add: convert_size_format_size unit_index_lt4)
    then show "?g (?item x) \<le> ?g (?item y) \<longleftrightarrow> ?key x \<le> ?key y" by simp
  qed
  finally have sk: "sort_key ?g (map ?item ims) = map ?item (sort_key ?key ims)" .
  have dq: "distinct (map fst ([] @ map ?show (sort_key ?key ims)))"
    using d by (simp add: comp_def distinct_map)
  have "move_all (length ([] :: (nat \<times> row) list)) (map ?item (sort_key ?key ims))
            ([] @ map ?show ims) = [] @ map ?show (sort_key ?key ims)"
    by (rule move_all_perm [OF dq]) (simp_all add: comp_def)
  then have mv: "move_all 0 (map ?item (sort_key ?key ims)) (map ?show ims)
                   = map ?show (sort_key ?key ims)" by simp
  show ?thesis
    by (simp add: sort_tree_def items sorted_items sk mv del: map_map)
qed

lemma sort_tree_size_TB:
  assumes big: "\<exists>im \<in> set ims. 1024 ^ 4 \<le> msize (snd im)"
  shows "sort_tree L ''size'' (s\<lparr>mod_tree := map (\<lambda>im. (fst im, row_of L (snd im))) ims\<rparr>)
           = Inl (KeyError ''TB'')"
proof -
  let ?show = "\<lambda>im. (fst im, row_of L (snd im))"
  let ?item = "\<lambda>im. (format_size (msize (snd im)), fst im)"
  have items: "all_or_first_error
        (map (\<lambda>(k, r). map_sum id (\<lambda>v. (v, k)) (tree_set r ''size'')) (map ?show ims))
        = Inr (map ?item ims)"
    unfolding row_items by (rule all_or_first_error_Inr)
  have "all_or_first_error (map (\<lambda>x. convert_size (fst x)) (map ?item ims))
          = Inl (KeyError ''TB'')"
  proof (rule all_or_first_error_Inl)
    show "\<forall>r \<in> set (map (\<lambda>x. convert_size (fst x)) (map ?item ims)).
            r = Inl (KeyError ''TB'') \<or> (\<exists>v. r = Inr v)"
      by (auto simp: convert_size_format_size)
    from big obtain im where "im \<in> set ims" "\<not> msize (snd im) < 1024 ^ 4" by force
    then show "\<exists>r \<in> set (map (\<lambda>x. convert_size (fst x)) (map ?item ims)).
            r = Inl (KeyError ''TB'')"
      by (auto simp: convert_size_format_size unit_index_lt4 intro!: bexI [of _ im])
  qed
  then have "py_sort_key (\<lambda>x. convert_size (fst x)) (map ?item ims) = Inl (KeyError ''TB'')"
    by (simp add: py_sort_key_def del: map_map)
  then show ?thesis
    by (simp add: sort_tree_def items del: map_map)
qed

lemma sort_key_snd_zip:
  "length ids = length ms \<Longrightarrow>
     map snd (sort_key (\<lambda>im. f (snd im)) (zip ids ms)) = sort_key f ms"
  using sort_key_map [of f snd "zip ids ms"] by simp

lemma sort_tree_size_inserted:
  assumes "\<forall>m \<in> set ms. msize m < 1024 ^ 4"
  shows "sort_tree L ''size'' (insert_rows L ms (s\<lparr>mod_tree := []\<rparr>))
           = Inr ((insert_rows L ms (s\<lparr>mod_tree := []\<rparr>))
                    \<lparr>mod_tree := map (\<lambda>im. (fst im, row_of L (snd im)))
                       (sort_key (\<lambda>im. shown_bytes (msize (snd im)))
                          (zip [next_iid s ..< next_iid s + length ms] ms))\<rparr>)"
proof -
  let ?ims = "zip [next_iid s ..< next_iid s + length ms] ms"
  have d: "distinct (map fst ?ims)" by simp
  have small: "\<forall>im \<in> set ?ims. msize (snd im) < 1024 ^ 4"
    using assms by (auto dest: set_zip_rightD)
  show ?thesis
    using sort_tree_size_rows [OF d small,
        where s = "s\<lparr>next_iid := next_iid s + length ms\<rparr>" and L = L]
    by (simp add: insert_rows_eq)
qed

lemma sort_tree_size_displayed:
  assumes "\<forall>m \<in> set ms. msize m < 1024 ^ 4"
  shows "(case sort_tree L ''size'' (insert_rows L ms (s\<lparr>mod_tree := []\<rparr>)) of
            Inl e \<Rightarrow> False
          | Inr s' \<Rightarrow> map snd (mod_tree s')
                        = map (row_of L) (sort_key (\<lambda>m. shown_bytes (msize m)) ms))"
proof -
  have "map snd (map (\<lambda>im. (fst im, row_of L (snd im))) xs) = map (row_of L) (map snd xs)"
    for xs :: "(nat \<times> mod_info) list"
    by (simp add: comp_def)
  then have "map snd (map (\<lambda>im. (fst im, row_of L (snd im)))
          (sort_key (\<lambda>im. shown_bytes (msize (snd im)))
             (zip [next_iid s ..< next_iid s + length ms] ms)))
        = map (row_of L) (sort_key (\<lambda>m. shown_bytes (msize m)) ms)"
    using sort_key_snd_zip [of "[next_iid s ..< next_iid s + length ms]" ms
        "\<lambda>m. shown_bytes (msize m)"]
    by (simp del: map_map)
  then show ?thesis
    by (simp add: sort_tree_size_inserted [OF assms])
qed

lemma shown_bytes_examples:
  "shown_bytes 2048 = 2048" "shown_bytes 512 = 512" "shown_bytes 1048576 = 1048576"
  "shown_bytes 2047 = 1024" "shown_bytes 1025 = 1024"
  by (simp_all add: shown_bytes_def unit_index_of_def format_loop.simps units_def)

lemma format_size_examples:
  "format_size 2048 = ''2.00 KB''" "format_size 512 = ''512.00 B''"
  "format_size 1048576 = ''1.00 MB''" "format_size 2047 = ''1.00 KB''"
  "format_size 1025 = ''1.00 KB''"
  by (simp_all add: format_size_def format_loop.simps units_def fmt_2f_def str_nat.simps
      digit_char_def)

text \<open>
  Claim C1, as amended. The size column is sorted by the number that is read back from the
  printed cell, \<open>shown_bytes\<close>, not by the size of the file: for every inventory whose
  entries are below \<open>1024 ^ 4\<close> bytes, \<^verbatim>\<open>sort_tree("size")\<close> returns, and the rows then
  stand in the stable ascending order of \<open>shown_bytes\<close> of their entries.
\<close>

theorem sort_by_size_orders_shown_bytes:
  assumes "\<forall>m \<in> set ms. msize m < 1024 ^ 4"
  shows "(case sort_tree L ''size'' (insert_rows L ms (s\<lparr>mod_tree := []\<rparr>)) of
            Inl e \<Rightarrow> False
          | Inr s' \<Rightarrow> map snd (mod_tree s')
                        = map (row_of L) (sort_key (\<lambda>m. shown_bytes (msize m)) ms))
         \<and> sorted (map (\<lambda>m. shown_bytes (msize m)) (sort_key (\<lambda>m. shown_bytes (msize m)) ms))
         \<and> mset (sort_key (\<lambda>m. shown_bytes (msize m)) ms) = mset ms"
  using sort_tree_size_displayed [OF assms, of L s] by simp

text \<open>
  The example of the specification: entries of 2048, 512 and 1048576 bytes come out in the
  order 512, 2048, 1048576.
\<close>

theorem sort_by_size_orders_shown_bytes_witness:
  "(case sort_tree example_lib ''size''
          (insert_rows example_lib
             [ModInfo ''.modcache/a.jar'' ''a'' 2048 None,
              ModInfo ''.modcache/b.jar'' ''b'' 512 None,
              ModInfo ''.modcache/c.jar'' ''c'' 1048576 None]
             (init_state\<lparr>mod_tree := []\<rparr>)) of
      Inl e \<Rightarrow> False
    | Inr s' \<Rightarrow> map (\<lambda>r. (r_name r, r_size r)) (map snd (mod_tree s'))
            = [(''b'', ''512.00 B''), (''a'', ''2.00 KB''), (''c'', ''1.00 MB'')])"
proof -
  let ?ms = "[ModInfo ''.modcache/a.jar'' ''a'' 2048 None,
              ModInfo ''.modcache/b.jar'' ''b'' 512 None,
              ModInfo ''.modcache/c.jar'' ''c'' 1048576 None]"
  have small: "\<forall>m \<in> set ?ms. msize m < 1024 ^ 4" by (simp add: ModInfo_def)
  have sk: "sort_key (\<lambda>m. shown_bytes (msize m)) ?ms
           = [ModInfo ''.modcache/b.jar'' ''b'' 512 None,
              ModInfo ''.modcache/a.jar'' ''a'' 2048 None,
              ModInfo ''.modcache/c.jar'' ''c'' 1048576 None]"
    by (simp add: ModInfo_def shown_bytes_examples)
  have rows: "map (\<lambda>r. (r_name r, r_size r))
                (map (row_of example_lib) (sort_key (\<lambda>m. shown_bytes (msize m)) ?ms))
              = [(''b'', ''512.00 B''), (''a'', ''2.00 KB''), (''c'', ''1.00 MB'')]"
    unfolding sk by (simp add: ModInfo_def row_of_def format_size_examples)
  show ?thesis
  proof (cases "sort_tree example_lib ''size'' (insert_rows example_lib ?ms (init_state\<lparr>mod_tree := []\<rparr>))")
    case (Inl e)
    with sort_by_size_orders_shown_bytes [OF small, of example_lib init_state]
    show ?thesis by simp
  next
    case (Inr s')
    with sort_by_size_orders_shown_bytes [OF small, of example_lib init_state]
    have "map snd (mod_tree s')
            = map (row_of example_lib) (sort_key (\<lambda>m. shown_bytes (msize m)) ?ms)"
      by simp
    with rows Inr show ?thesis by (simp only: sum.case)
  qed
qed

text \<open>
  Claim C1 as stated fails: an entry of 2047 bytes and one of 1025 bytes are both printed
  as 1.00 KB, the sort sees two equal keys and keeps the entry of 2047 bytes first.
\<close>

theorem sort_by_size_counterexample:
  "(case sort_tree example_lib ''size''
           (insert_rows example_lib
              [ModInfo ''.modcache/a.jar'' ''a'' 2047 None,
               ModInfo ''.modcache/b.jar'' ''b'' 1025 None]
              (init_state\<lparr>mod_tree := []\<rparr>)) of
      Inl e \<Rightarrow> False
    | Inr s' \<Rightarrow> map (\<lambda>r. (r_name r, r_size r)) (map snd (mod_tree s'))
                  = [(''a'', ''1.00 KB''), (''b'', ''1.00 KB'')])
   \<and> \<not> sorted [2047, 1025 :: nat]"
proof -
  let ?ms = "[ModInfo ''.modcache/a.jar'' ''a'' 2047 None,
              ModInfo ''.modcache/b.jar'' ''b'' 1025 None]"
  have small: "\<forall>m \<in> set ?ms. msize m < 1024 ^ 4" by (simp add: ModInfo_def)
  have sk: "sort_key (\<lambda>m. shown_bytes (msize m)) ?ms = ?ms"
    by (simp add: ModInfo_def shown_bytes_examples)
  have rows: "map (\<lambda>r. (r_name r, r_size r))
                (map (row_of example_lib) (sort_key (\<lambda>m. shown_bytes (msize m)) ?ms))
              = [(''a'', ''1.00 KB''), (''b'', ''1.00 KB'')]"
    unfolding sk by (simp add: ModInfo_def row_of_def format_size_examples)
  have "case sort_tree example_lib ''size'' (insert_rows example_lib ?ms (init_state\<lparr>mod_tree := []\<rparr>)) of
      Inl e \<Rightarrow> False
    | Inr s' \<Rightarrow> map (\<lambda>r. (r_name r, r_size r)) (map snd (mod_tree s'))
                  = [(''a'', ''1.00 KB''), (''b'', ''1.00 KB'')]"
  proof (cases "sort_tree example_lib ''size'' (insert_rows example_lib ?ms (init_state\<lparr>mod_tree := []\<rparr>))")
    case (Inl e)
    with sort_tree_size_displayed [OF small, of example_lib init_state]
    show ?thesis by simp
  next
    case (Inr s')
    with sort_tree_size_displayed [OF small, of example_lib init_state]
    have "map snd (mod_tree s')
            = map (row_of example_lib) (sort_key (\<lambda>m. shown_bytes (msize m)) ?ms)"
      by simp
    with rows Inr show ?thesis by (simp only: sum.case)
  qed
  then show ?thesis by simp
qed

text \<open>
  Claim C2 fails on the code. \<^verbatim>\<open>format_size\<close> prints the unit TB from \<open>1024 ^ 4\<close> bytes on,
  and the table of \<^verbatim>\<open>convert_size\<close> has no entry for it: whenever the list shows such an
  entry, \<^verbatim>\<open>sort_tree("size")\<close> leaves with \<^verbatim>\<open>KeyError('TB')\<close>, which nothing catches.
\<close>

theorem sort_by_size_raises_on_terabyte:
  assumes "\<exists>m \<in> set ms. 1024 ^ 4 \<le> msize m"
  shows "sort_tree L ''size'' (insert_rows L ms (s\<lparr>mod_tree := []\<rparr>)) = Inl (KeyError ''TB'')"
proof -
  let ?ims = "zip [next_iid s ..< next_iid s + length ms] ms"
  from assms obtain m where m: "m \<in> set ms" "1024 ^ 4 \<le> msize m" by blast
  then obtain i where "i < length ms" "ms ! i = m" by (auto simp: in_set_conv_nth)
  then have "(next_iid s + i, m) \<in> set ?ims"
    by (auto simp: set_zip intro!: exI [of _ i])
  with m(2) have big: "\<exists>im \<in> set ?ims. 1024 ^ 4 \<le> msize (snd im)" by force
  show ?thesis
    using sort_tree_size_TB [OF big,
        where s = "s\<lparr>next_iid := next_iid s + length ms\<rparr>" and L = L]
    by (simp add: insert_rows_eq)
qed

theorem sort_by_size_raises_on_terabyte_witness:
  "sort_tree example_lib ''size''
     (insert_rows example_lib
        [ModInfo ''.modcache/small.jar'' ''small'' 512 None,
         ModInfo ''.modcache/huge.jar'' ''huge'' (1024 ^ 4) None]
        (init_state\<lparr>mod_tree := []\<rparr>)) = Inl (KeyError ''TB'')"
proof -
  have "\<exists>m \<in> set [ModInfo ''.modcache/small.jar'' ''small'' 512 None,
                    ModInfo ''.modcache/huge.jar'' ''huge'' (1024 ^ 4) None].
           1024 ^ 4 \<le> msize m"
    by (simp add: ModInfo_def)
  then show ?thesis by (rule sort_by_size_raises_on_terabyte)
qed

subsection \<open>Reading the version of an archive\<close>

lemma str_in_single: "str_in [c] s \<longleftrightarrow> c \<in> set s"
proof
  assume "str_in [c] s"
  then obtain ps ss where "s = ps @ [c] @ ss" by (auto simp: str_in_def sublist_def)
  then show "c \<in> set s" by simp
next
  assume "c \<in> set s"
  then obtain ps ss where "s = ps @ c # ss" by (auto simp: in_set_conv_decomp)
  then show "str_in [c] s" by (auto simp: str_in_def sublist_def)
qed

lemma version_of_doc_string:
  assumes "map_of data ''mods'' = Some (TArr (TTab first # others))"
    and "map_of first ''version'' = Some (TStr s)"
  shows "version_of_doc data = Inr (if CHR ''$'' \<in> set s then None else Some (TStr s))"
proof -
  from assms(2) have "(''version'', TStr s) \<in> set first" by (rule map_of_SomeD)
  then have "''version'' \<in> fst ` set first" by force
  then show ?thesis
    using assms by (simp add: version_of_doc_def str_in_single)
qed

lemma map_of_rev_last:
  "f \<in> fst ` set z \<Longrightarrow> map_of (rev z) f = Some (snd (last [e \<leftarrow> z. fst e = f]))"
proof (induction z rule: rev_induct)
  case Nil
  then show ?case by simp
next
  case (snoc x xs)
  show ?case
  proof (cases "fst x = f")
    case True
    then show ?thesis by (cases x) simp
  next
    case False
    with snoc.prems have "f \<in> fst ` set xs" by auto
    with snoc.IH False show ?thesis by (cases x) auto
  qed
qed

lemma zip_read_last:
  assumes "f \<in> set (namelist z)"
  shows "zip_read z f = snd (last [e \<leftarrow> z. fst e = f])"
  using map_of_rev_last [of f z] assms by (simp add: zip_read_def namelist_def)

text \<open>
  Claim C3, as amended. \<^verbatim>\<open>parse_mod_version\<close> takes the name of the first member under
  \<^verbatim>\<open>META-INF/\<close> with extension \<^verbatim>\<open>.toml\<close>, in listing order, and opens the archive by that
  name, which gives the last member that carries the name: the first metadata entry
  itself unless its name occurs again. When this member can be read, decoded and
  parsed, and the document has a non-empty array \<open>mods\<close> whose first element is a table that
  maps \<open>version\<close> to a string \<open>s\<close>, then \<open>s\<close> is returned if it has no dollar sign, and
  \<open>None\<close> if it has one.
\<close>

theorem parse_mod_version_declared:
  assumes "open_zip W jar_path = Inr z"
    and "toml_files z = f # fs"
    and "last [e \<leftarrow> z. fst e = f] = (f, Inr raw)"
    and "decode_utf8 L raw = Inr content"
    and "toml_loads L content = Inr data"
    and "map_of data ''mods'' = Some (TArr (TTab first # others))"
    and "map_of first ''version'' = Some (TStr s)"
  shows "parse_mod_version L W jar_path
           = (if CHR ''$'' \<in> set s then None else Some (TStr s))"
proof -
  from assms(2) have "f \<in> set (toml_files z)" by simp
  then have "f \<in> set (namelist z)" by (simp add: toml_files_def)
  then have "zip_read z f = Inr raw" using assms(3) by (simp add: zip_read_last)
  then show ?thesis
    using assms(1,2,4,5) version_of_doc_string [OF assms(6,7)]
    by (simp add: parse_mod_version_def parse_mod_version_body_def)
qed

lemma example_toml_files:
  "toml_files [(''META-INF/MANIFEST.MF'', Inr a), (''META-INF/mods.toml'', b)] = [''META-INF/mods.toml'']"
  "toml_files [(''META-INF/mods.toml'', b)] = [''META-INF/mods.toml'']"
  "toml_files [(''META-INF/MANIFEST.MF'', Inr a)] = []"
  "toml_files [(''META-INF/mods.toml'', b), (''META-INF/mods.toml'', c)]
     = [''META-INF/mods.toml'', ''META-INF/mods.toml'']"
  by (simp_all add: toml_files_def namelist_def startswith_def endswith_def suffix_def)

lemma example_open_zip:
  "open_zip example_world ''.modcache/A.jar''
     = Inr [(''META-INF/MANIFEST.MF'', Inr ''Manifest-Version: 1.0''),
            (''META-INF/mods.toml'', Inr ''[[mods]] version = 1.2.3'')]"
  "open_zip example_world ''.modcache/B.jar''
     = Inr [(''META-INF/MANIFEST.MF'', Inr ''Manifest-Version: 1.0'')]"
  "open_zip example_world ''dev/placeholder.jar''
     = Inr [(''META-INF/mods.toml'', Inr ''[[mods]] version = ${project.version}'')]"
  "open_zip example_world ''dev/corrupt.jar'' = Inr [(''META-INF/mods.toml'', Inl BadZipFile)]"
  "open_zip example_world ''dev/latin.jar'' = Inr [(''META-INF/mods.toml'', Inr [CHR 0xFF])]"
  "open_zip example_world ''dev/syntax.jar'' = Inr [(''META-INF/mods.toml'', Inr ''mods = ['')]"
  "open_zip example_world ''.modcache/notes.txt'' = Inl BadZipFile"
  "open_zip example_world ''dev/twice.jar''
     = Inr [(''META-INF/mods.toml'', Inr ''[[mods]] version = 1.2.3''),
            (''META-INF/mods.toml'', Inr ''[[mods]] version = 2.0.0'')]"
  "open_zip example_world ''dev/array.jar''
     = Inr [(''META-INF/mods.toml'', Inr ''[[mods]] version = [1, 2]'')]"
  by (simp_all add: example_world_def example_archives_def)

text \<open>
  An archive with one metadata entry that declares 1.2.3, one whose entry declares a
  placeholder, and one with two members of the same name, of which the last is read.
\<close>

theorem parse_mod_version_declared_witness:
  "parse_mod_version example_lib example_world ''.modcache/A.jar'' = Some (TStr ''1.2.3'')
   \<and> parse_mod_version example_lib example_world ''dev/placeholder.jar'' = None
   \<and> parse_mod_version example_lib example_world ''dev/twice.jar'' = Some (TStr ''2.0.0'')"
proof -
  have a1: "toml_files [(''META-INF/MANIFEST.MF'', Inr ''Manifest-Version: 1.0''),
                        (''META-INF/mods.toml'', Inr ''[[mods]] version = 1.2.3'')]
              = ''META-INF/mods.toml'' # []"
    by (simp add: example_toml_files)
  have a2: "last [e \<leftarrow> [(''META-INF/MANIFEST.MF'', Inr ''Manifest-Version: 1.0''),
                          (''META-INF/mods.toml'', Inr ''[[mods]] version = 1.2.3'')].
                   fst e = ''META-INF/mods.toml'']
              = (''META-INF/mods.toml'', Inr ''[[mods]] version = 1.2.3'')"
    by simp
  have a3: "decode_utf8 example_lib ''[[mods]] version = 1.2.3'' = Inr ''[[mods]] version = 1.2.3''"
    by (simp add: example_lib_def)
  have a4: "toml_loads example_lib ''[[mods]] version = 1.2.3''
              = Inr [(''mods'', TArr [TTab [(''version'', TStr ''1.2.3'')]])]"
    by (simp add: example_lib_def)
  have a5: "map_of [(''mods'', TArr [TTab [(''version'', TStr ''1.2.3'')]])] ''mods''
              = Some (TArr (TTab [(''version'', TStr ''1.2.3'')] # []))"
    by simp
  have a6: "map_of [(''version'', TStr ''1.2.3'')] ''version'' = Some (TStr ''1.2.3'')"
    by simp
  have b1: "toml_files [(''META-INF/mods.toml'', Inr ''[[mods]] version = ${project.version}'')]
              = ''META-INF/mods.toml'' # []"
    by (simp add: example_toml_files)
  have b2: "last [e \<leftarrow> [(''META-INF/mods.toml'', Inr ''[[mods]] version = ${project.version}'')].
                   fst e = ''META-INF/mods.toml'']
              = (''META-INF/mods.toml'', Inr ''[[mods]] version = ${project.version}'')"
    by simp
  have b3: "decode_utf8 example_lib ''[[mods]] version = ${project.version}''
              = Inr ''[[mods]] version = ${project.version}''"
    by (simp add: example_lib_def)
  have b4: "toml_loads example_lib ''[[mods]] version = ${project.version}''
              = Inr [(''mods'', TArr [TTab [(''version'', TStr ''${project.version}'')]])]"
    by (simp add: example_lib_def)
  have b5: "map_of [(''mods'', TArr [TTab [(''version'', TStr ''${project.version}'')]])] ''mods''
              = Some (TArr (TTab [(''version'', TStr ''${project.version}'')] # []))"
    by simp
  have b6: "map_of [(''version'', TStr ''${project.version}'')] ''version''
              = Some (TStr ''${project.version}'')"
    by simp
  have c1: "toml_files [(''META-INF/mods.toml'', Inr ''[[mods]] version = 1.2.3''),
                        (''META-INF/mods.toml'', Inr ''[[mods]] version = 2.0.0'')]
              = ''META-INF/mods.toml'' # [''META-INF/mods.toml'']"
    by (simp add: example_toml_files)
  have c2: "last [e \<leftarrow> [(''META-INF/mods.toml'', Inr ''[[mods]] version = 1.2.3''),
                          (''META-INF/mods.toml'', Inr ''[[mods]] version = 2.0.0'')].
                   fst e = ''META-INF/mods.toml'']
              = (''META-INF/mods.toml'', Inr ''[[mods]] version = 2.0.0'')"
    by simp
  have c3: "decode_utf8 example_lib ''[[mods]] version = 2.0.0'' = Inr ''[[mods]] version = 2.0.0''"
    by (simp add: example_lib_def)
  have c4: "toml_loads example_lib ''[[mods]] version = 2.0.0''
              = Inr [(''mods'', TArr [TTab [(''version'', TStr ''2.0.0'')]])]"
    by (simp add: example_lib_def)
  have c5: "map_of [(''mods'', TArr [TTab [(''version'', TStr ''2.0.0'')]])] ''mods''
              = Some (TArr (TTab [(''version'', TStr ''2.0.0'')] # []))"
    by simp
  have c6: "map_of [(''version'', TStr ''2.0.0'')] ''version'' = Some (TStr ''2.0.0'')"
    by simp
  show ?thesis
    using parse_mod_version_declared [OF example_open_zip(1) a1 a2 a3 a4 a5 a6]
      parse_mod_version_declared [OF example_open_zip(3) b1 b2 b3 b4 b5 b6]
      parse_mod_version_declared [OF example_open_zip(8) c1 c2 c3 c4 c5 c6]
    by simp
qed

text \<open>
  Claim C3 as stated fails on an archive that lists two members of the same name. Its
  first metadata entry declares version 1.2.3, without a dollar sign, and the version
  returned is the 2.0.0 of the second member, because the archive is opened by name.
\<close>

theorem parse_mod_version_counterexample:
  "open_zip example_world ''dev/twice.jar''
     = Inr [(''META-INF/mods.toml'', Inr ''[[mods]] version = 1.2.3''),
            (''META-INF/mods.toml'', Inr ''[[mods]] version = 2.0.0'')]
   \<and> hd [e \<leftarrow> [(''META-INF/mods.toml'', Inr ''[[mods]] version = 1.2.3''),
                      (''META-INF/mods.toml'', Inr ''[[mods]] version = 2.0.0'')].
               startswith (fst e) ''META-INF/'' \<and> endswith (fst e) ''.toml'']
       = (''META-INF/mods.toml'', Inr ''[[mods]] version = 1.2.3'')
   \<and> decode_utf8 example_lib ''[[mods]] version = 1.2.3'' = Inr ''[[mods]] version = 1.2.3''
   \<and> toml_loads example_lib ''[[mods]] version = 1.2.3''
       = Inr [(''mods'', TArr [TTab [(''version'', TStr ''1.2.3'')]])]
   \<and> CHR ''$'' \<notin> set ''1.2.3''
   \<and> parse_mod_version example_lib example_world ''dev/twice.jar'' = Some (TStr ''2.0.0'')
   \<and> parse_mod_version example_lib example_world ''dev/twice.jar'' \<noteq> Some (TStr ''1.2.3'')"
proof -
  have r: "parse_mod_version example_lib example_world ''dev/twice.jar'' = Some (TStr ''2.0.0'')"
    by (simp add: parse_mod_version_def parse_mod_version_body_def example_open_zip
        example_toml_files zip_read_def example_lib_def version_of_doc_def str_in_single)
  have h: "hd [e \<leftarrow> [(''META-INF/mods.toml'', Inr ''[[mods]] version = 1.2.3''),
                      (''META-INF/mods.toml'', Inr ''[[mods]] version = 2.0.0'')].
               startswith (fst e) ''META-INF/'' \<and> endswith (fst e) ''.toml'']
       = (''META-INF/mods.toml'', Inr ''[[mods]] version = 1.2.3'')"
    by (simp add: startswith_def endswith_def suffix_def)
  show ?thesis
    using r h by (simp add: example_open_zip example_lib_def)
qed

text \<open>
  Claim C4. \<^verbatim>\<open>parse_mod_version\<close> returns a value on every input, and the value is \<open>None\<close>
  when the file is not an archive or cannot be opened, when the archive has no member
  \<^verbatim>\<open>META-INF/*.toml\<close>, when the first such member cannot be read, cannot be decoded or
  cannot be parsed, and in general whenever anything is raised in the body of the
  \<^verbatim>\<open>try\<close> block.
\<close>

theorem parse_mod_version_never_raises:
  "(open_zip W p = Inl ea \<longrightarrow> parse_mod_version L W p = None)
   \<and> (open_zip W p = Inr z \<and> toml_files z = [] \<longrightarrow> parse_mod_version L W p = None)
   \<and> (open_zip W p = Inr z \<and> toml_files z = f # fs \<and> zip_read z f = Inl eb
        \<longrightarrow> parse_mod_version L W p = None)
   \<and> (open_zip W p = Inr z \<and> toml_files z = f # fs \<and> zip_read z f = Inr raw
        \<and> decode_utf8 L raw = Inl ec \<longrightarrow> parse_mod_version L W p = None)
   \<and> (open_zip W p = Inr z \<and> toml_files z = f # fs \<and> zip_read z f = Inr raw
        \<and> decode_utf8 L raw = Inr content \<and> toml_loads L content = Inl ed
        \<longrightarrow> parse_mod_version L W p = None)
   \<and> (parse_mod_version_body L W p = Inl ee \<longrightarrow> parse_mod_version L W p = None)"
  by (simp add: parse_mod_version_def parse_mod_version_body_def)

theorem parse_mod_version_never_raises_witness:
  "parse_mod_version example_lib example_world ''.modcache/notes.txt'' = None
   \<and> parse_mod_version example_lib example_world ''.modcache/B.jar'' = None
   \<and> parse_mod_version example_lib example_world ''dev/corrupt.jar'' = None
   \<and> parse_mod_version example_lib example_world ''dev/latin.jar'' = None
   \<and> parse_mod_version example_lib example_world ''dev/syntax.jar'' = None"
proof -
  have 1: "parse_mod_version example_lib example_world ''.modcache/notes.txt'' = None"
    using parse_mod_version_never_raises
      [of example_world "''.modcache/notes.txt''" BadZipFile example_lib]
    by (simp add: example_open_zip)
  have 2: "parse_mod_version example_lib example_world ''.modcache/B.jar'' = None"
    using parse_mod_version_never_raises
      [where W = example_world and p = "''.modcache/B.jar''" and L = example_lib
         and z = "[(''META-INF/MANIFEST.MF'', Inr ''Manifest-Version: 1.0'')]"]
    by (simp add: example_open_zip example_toml_files)
  have 3: "parse_mod_version example_lib example_world ''dev/corrupt.jar'' = None"
    using parse_mod_version_never_raises
      [where W = example_world and p = "''dev/corrupt.jar''" and L = example_lib
         and z = "[(''META-INF/mods.toml'', Inl BadZipFile)]"
         and f = "''META-INF/mods.toml''" and fs = "[]" and eb = BadZipFile]
    by (simp add: example_open_zip example_toml_files zip_read_def)
  have 4: "parse_mod_version example_lib example_world ''dev/latin.jar'' = None"
    using parse_mod_version_never_raises
      [where W = example_world and p = "''dev/latin.jar''" and L = example_lib
         and z = "[(''META-INF/mods.toml'', Inr [CHR 0xFF])]"
         and f = "''META-INF/mods.toml''" and fs = "[]" and raw = "[CHR 0xFF]"
         and ec = UnicodeDecodeError]
    by (simp add: example_open_zip example_toml_files zip_read_def example_lib_def)
  have 5: "parse_mod_version example_lib example_world ''dev/syntax.jar'' = None"
    using parse_mod_version_never_raises
      [where W = example_world and p = "''dev/syntax.jar''" and L = example_lib
         and z = "[(''META-INF/mods.toml'', Inr ''mods = ['')]"
         and f = "''META-INF/mods.toml''" and fs = "[]" and raw = "''mods = [''"
         and content = "''mods = [''" and ed = TomlDecodeError]
    by (simp add: example_open_zip example_toml_files zip_read_def example_lib_def)
  from 1 2 3 4 5 show ?thesis by simp
qed

subsection \<open>Rescanning\<close>

text \<open>
  Claim C10. When the cache directory does not exist and cannot be created,
  \<^verbatim>\<open>refresh_mod_list\<close> returns with the list of entries and the rows of the widget empty,
  whatever they held before; the failure is shown in a dialog and the status line is
  reset.
\<close>

theorem refresh_failed_mkdir_clears_inventory:
  assumes "\<not> path_exists W (cache_dir s)" and "makedirs W (cache_dir s) = Some e"
  shows "refresh_mod_list L W s
           = s\<lparr>status_var := Ready, mod_tree := [], mods := [],
               alerts := alerts s @ [CreateDirFailed e]\<rparr>
         \<and> mods (refresh_mod_list L W s) = []
         \<and> mod_tree (refresh_mod_list L W s) = []"
  using assms by (simp add: refresh_mod_list_def)

theorem refresh_failed_mkdir_clears_inventory_witness:
  "mods (refresh_mod_list example_lib readonly_world
           (init_state\<lparr>mods := [ModInfo ''.modcache/A.jar'' ''A'' 2048 None]\<rparr>)) = []
   \<and> mod_tree (refresh_mod_list example_lib readonly_world
           (init_state\<lparr>mods := [ModInfo ''.modcache/A.jar'' ''A'' 2048 None]\<rparr>)) = []"
proof -
  have a: "\<not> path_exists readonly_world
             (cache_dir (init_state\<lparr>mods := [ModInfo ''.modcache/A.jar'' ''A'' 2048 None]\<rparr>))"
    by (simp add: readonly_world_def)
  have b: "makedirs readonly_world
             (cache_dir (init_state\<lparr>mods := [ModInfo ''.modcache/A.jar'' ''A'' 2048 None]\<rparr>))
           = Some OSError"
    by (simp add: readonly_world_def)
  show ?thesis
    using refresh_failed_mkdir_clears_inventory [OF a b, of example_lib] by simp
qed

lemma basename_append:
  assumes "CHR ''/'' \<notin> set f" and "x = [] \<or> last x = CHR ''/''"
  shows "basename (x @ f) = f"
proof -
  have f: "\<forall>c \<in> set (rev f). c \<noteq> CHR ''/''" using assms(1) by auto
  have x: "takeWhile (\<lambda>c. c \<noteq> CHR ''/'') (rev x) = []"
  proof (cases "x = []")
    case True
    then show ?thesis by simp
  next
    case False
    with assms(2) have "hd (rev x) = CHR ''/''" by (simp add: hd_rev)
    with False show ?thesis by (cases "rev x") simp_all
  qed
  have "takeWhile (\<lambda>c. c \<noteq> CHR ''/'') (rev f @ rev x)
          = rev f @ takeWhile (\<lambda>c. c \<noteq> CHR ''/'') (rev x)"
    by (rule takeWhile_append2) (use f in auto)
  with x have "takeWhile (\<lambda>c. c \<noteq> CHR ''/'') (rev f @ rev x) = rev f" by simp
  then show ?thesis by (simp add: basename_def)
qed

lemma basename_path_join:
  assumes "CHR ''/'' \<notin> set f"
  shows "basename (path_join dirpath f) = f"
proof -
  from assms have ns: "\<not> startswith f ''/''"
    by (auto simp: startswith_def prefix_def)
  show ?thesis
  proof (cases "dirpath = [] \<or> endswith dirpath ''/''")
    case True
    then have "dirpath = [] \<or> last dirpath = CHR ''/''"
      by (auto simp: endswith_def suffix_def)
    with True ns show ?thesis
      by (simp add: path_join_def basename_append [OF assms])
  next
    case False
    have "basename ((dirpath @ ''/'') @ f) = f"
      by (rule basename_append [OF assms]) simp
    with False ns show ?thesis by (simp add: path_join_def)
  qed
qed

lemma endswith_jar_archive_name:
  "endswith (ascii_lower f) ''.jar'' \<longleftrightarrow> is_archive_name f"
proof
  assume "endswith (ascii_lower f) ''.jar''"
  then obtain pre where pre: "ascii_lower f = pre @ ''.jar''"
    by (auto simp: endswith_def suffix_def)
  then have "length (ascii_lower f) = length pre + 4" by simp
  then have len: "length f = length pre + 4" by (simp add: ascii_lower_def)
  have "ascii_lower (drop (length f - 4) f) = drop (length f - 4) (ascii_lower f)"
    by (simp add: ascii_lower_def drop_map)
  also have "\<dots> = ''.jar''" using pre len by simp
  finally show "is_archive_name f" using len by (simp add: is_archive_name_def)
next
  assume a: "is_archive_name f"
  have "ascii_lower f = ascii_lower (take (length f - 4) f) @ ascii_lower (drop (length f - 4) f)"
    unfolding ascii_lower_def by (simp flip: map_append)
  with a show "endswith (ascii_lower f) ''.jar''"
    by (auto simp: endswith_def suffix_def is_archive_name_def)
qed

text \<open>
  The names that pass the test of the archive extension: they end with a dot and the
  letters J, A, R, each written small or as a capital.
\<close>

lemma of_char_capital:
  "(of_char c :: nat) = 74 \<longleftrightarrow> c = CHR ''J''"
  "(of_char c :: nat) = 65 \<longleftrightarrow> c = CHR ''A''"
  "(of_char c :: nat) = 82 \<longleftrightarrow> c = CHR ''R''"
proof -
  have "c = char_of n" if "(of_char c :: nat) = n" for n
    using that by auto
  from this [of 74] this [of 65] this [of 82]
  show "(of_char c :: nat) = 74 \<longleftrightarrow> c = CHR ''J''"
    "(of_char c :: nat) = 65 \<longleftrightarrow> c = CHR ''A''"
    "(of_char c :: nat) = 82 \<longleftrightarrow> c = CHR ''R''"
    by (auto simp: char_of_def bit_Suc_0_iff)
qed

lemma ascii_lower_char_capital:
  assumes "65 \<le> (of_char c :: nat)" and "(of_char c :: nat) \<le> 90"
  shows "ascii_lower_char c = d \<longleftrightarrow> (of_char c :: nat) + 32 = of_char d"
proof -
  have "ascii_lower_char c = char_of (of_char c + 32 :: nat)"
    using assms by (simp add: ascii_lower_char_def Let_def)
  moreover have "char_of (of_char c + 32 :: nat) = d \<longleftrightarrow> (of_char c :: nat) + 32 = of_char d"
    using assms by (simp add: char_of_eq_iff take_bit_eq_mod)
  ultimately show ?thesis by simp
qed

lemma ascii_lower_char_extension:
  "ascii_lower_char c = CHR ''.'' \<longleftrightarrow> c = CHR ''.''"
  "ascii_lower_char c = CHR ''j'' \<longleftrightarrow> c = CHR ''j'' \<or> c = CHR ''J''"
  "ascii_lower_char c = CHR ''a'' \<longleftrightarrow> c = CHR ''a'' \<or> c = CHR ''A''"
  "ascii_lower_char c = CHR ''r'' \<longleftrightarrow> c = CHR ''r'' \<or> c = CHR ''R''"
proof -
  consider (capital) "65 \<le> (of_char c :: nat) \<and> (of_char c :: nat) \<le> 90"
    | (other) "\<not> (65 \<le> (of_char c :: nat) \<and> (of_char c :: nat) \<le> 90)"
    by blast
  then have "(ascii_lower_char c = CHR ''.'' \<longleftrightarrow> c = CHR ''.'')
    \<and> (ascii_lower_char c = CHR ''j'' \<longleftrightarrow> c = CHR ''j'' \<or> c = CHR ''J'')
    \<and> (ascii_lower_char c = CHR ''a'' \<longleftrightarrow> c = CHR ''a'' \<or> c = CHR ''A'')
    \<and> (ascii_lower_char c = CHR ''r'' \<longleftrightarrow> c = CHR ''r'' \<or> c = CHR ''R'')"
  proof cases
    case capital
    then have "c \<noteq> CHR ''.''" "c \<noteq> CHR ''j''" "c \<noteq> CHR ''a''" "c \<noteq> CHR ''r''" by auto
    moreover have "ascii_lower_char c = d \<longleftrightarrow> (of_char c :: nat) + 32 = of_char d" for d
      using capital by (simp add: ascii_lower_char_capital)
    ultimately show ?thesis using capital by (auto simp: of_char_capital)
  next
    case other
    then have "ascii_lower_char c = c" by (auto simp add: ascii_lower_char_def Let_def)
    moreover have "c \<noteq> CHR ''J''" "c \<noteq> CHR ''A''" "c \<noteq> CHR ''R''" using other by auto
    ultimately show ?thesis by simp
  qed
  then show "ascii_lower_char c = CHR ''.'' \<longleftrightarrow> c = CHR ''.''"
    "ascii_lower_char c = CHR ''j'' \<longleftrightarrow> c = CHR ''j'' \<or> c = CHR ''J''"
    "ascii_lower_char c = CHR ''a'' \<longleftrightarrow> c = CHR ''a'' \<or> c = CHR ''A''"
    "ascii_lower_char c = CHR ''r'' \<longleftrightarrow> c = CHR ''r'' \<or> c = CHR ''R''"
    by simp_all
qed

lemma is_archive_name_iff:
  "is_archive_name f \<longleftrightarrow>
     (\<exists>stem j a r. f = stem @ [CHR ''.'', j, a, r]
        \<and> (j = CHR ''j'' \<or> j = CHR ''J'') \<and> (a = CHR ''a'' \<or> a = CHR ''A'')
        \<and> (r = CHR ''r'' \<or> r = CHR ''R''))"
proof
  assume h: "is_archive_name f"
  then have len: "4 \<le> length f"
    and l: "map ascii_lower_char (drop (length f - 4) f) = ''.jar''"
    by (simp_all add: is_archive_name_def ascii_lower_def)
  from l obtain w x y z where d: "drop (length f - 4) f = [w, x, y, z]"
    and c: "ascii_lower_char w = CHR ''.''" "ascii_lower_char x = CHR ''j''"
      "ascii_lower_char y = CHR ''a''" "ascii_lower_char z = CHR ''r''"
    by (auto simp: map_eq_Cons_conv)
  have "f = take (length f - 4) f @ drop (length f - 4) f" by simp
  with d have "f = take (length f - 4) f @ [w, x, y, z]" by simp
  with c show "\<exists>stem j a r. f = stem @ [CHR ''.'', j, a, r]
        \<and> (j = CHR ''j'' \<or> j = CHR ''J'') \<and> (a = CHR ''a'' \<or> a = CHR ''A'')
        \<and> (r = CHR ''r'' \<or> r = CHR ''R'')"
    by (auto simp: ascii_lower_char_extension)
next
  assume "\<exists>stem j a r. f = stem @ [CHR ''.'', j, a, r]
        \<and> (j = CHR ''j'' \<or> j = CHR ''J'') \<and> (a = CHR ''a'' \<or> a = CHR ''A'')
        \<and> (r = CHR ''r'' \<or> r = CHR ''R'')"
  then obtain stem j a r where f: "f = stem @ [CHR ''.'', j, a, r]"
    and c: "ascii_lower_char j = CHR ''j''" "ascii_lower_char a = CHR ''a''"
      "ascii_lower_char r = CHR ''r''"
    by (auto simp: ascii_lower_char_extension)
  have "ascii_lower_char CHR ''.'' = CHR ''.''" by (simp add: ascii_lower_char_extension)
  with f c show "is_archive_name f"
    by (simp add: is_archive_name_def ascii_lower_def)
qed



lemma refresh_ok:
  assumes "path_exists W (cache_dir s) \<or> makedirs W (cache_dir s) = None"
  shows "refresh_mod_list L W s =
     (insert_rows L (load_mods L W (find_jar_files W (cache_dir s)))
        (s\<lparr>status_var := Loading, mod_tree := [],
           mods := load_mods L W (find_jar_files W (cache_dir s))\<rparr>))
       \<lparr>status_var :=
          (if 0 < max_cache_size s
              \<and> of_int (max_cache_size s)
                   < (of_nat (fst (get_cache_size W (cache_dir s))) :: rat) / (1024 * 1024)
           then BudgetWarning (snd (get_cache_size W (cache_dir s))) (max_cache_size s)
           else Loaded (length (load_mods L W (find_jar_files W (cache_dir s))))
                  (snd (get_cache_size W (cache_dir s))))\<rparr>"
  using assms
  by (auto simp: refresh_mod_list_def Let_def insert_rows_eq split: prod.splits)

lemma load_mods_append:
  "load_mods L W (xs @ ys) = load_mods L W xs @ load_mods L W ys"
  by (induction xs) (simp_all add: Let_def split: sum.splits)

lemma load_mods_dir:
  assumes "\<forall>f \<in> set fs. CHR ''/'' \<notin> set f"
  shows "load_mods L W (map (path_join d) fs)
           = map (cache_entry L W d) [f \<leftarrow> fs. size_readable W (path_join d f)]"
  using assms
proof (induction fs)
  case Nil
  then show ?case by simp
next
  case (Cons f fs)
  from Cons.prems have "CHR ''/'' \<notin> set f" by simp
  then have b: "basename (path_join d f) = f" by (rule basename_path_join)
  have ih: "load_mods L W (map (path_join d) fs)
              = map (cache_entry L W d) [f \<leftarrow> fs. size_readable W (path_join d f)]"
    using Cons by simp
  show ?case
  proof (cases "getsize W (path_join d f)")
    case (Inl e)
    with ih show ?thesis by (simp add: size_readable_def)
  next
    case (Inr n)
    with ih show ?thesis
      by (simp add: b Let_def ModInfo_def cache_entry_def size_readable_def)
  qed
qed

lemma load_mods_walk:
  assumes "\<forall>(d, ds, fs) \<in> set triples. \<forall>f \<in> set fs. CHR ''/'' \<notin> set f"
  shows "load_mods L W
           (concat (map (\<lambda>(d, ds, fs). map (path_join d) [f \<leftarrow> fs. endswith (ascii_lower f) ''.jar''])
                        triples))
         = concat (map (\<lambda>(d, ds, fs). map (cache_entry L W d)
                           [f \<leftarrow> fs. is_archive_name f \<and> size_readable W (path_join d f)])
                       triples)"
  using assms
proof (induction triples)
  case Nil
  then show ?case by simp
next
  case (Cons t triples)
  obtain d ds fs where t: "t = (d, ds, fs)" by (cases t)
  have "load_mods L W (map (path_join d) [f \<leftarrow> fs. is_archive_name f])
          = map (cache_entry L W d)
              [f \<leftarrow> [f \<leftarrow> fs. is_archive_name f]. size_readable W (path_join d f)]"
    by (rule load_mods_dir) (use Cons.prems t in auto)
  moreover have "load_mods L W
           (concat (map (\<lambda>(d, ds, fs). map (path_join d) [f \<leftarrow> fs. endswith (ascii_lower f) ''.jar''])
                        triples))
         = concat (map (\<lambda>(d, ds, fs). map (cache_entry L W d)
                           [f \<leftarrow> fs. is_archive_name f \<and> size_readable W (path_join d f)])
                       triples)"
    by (rule Cons.IH) (use Cons.prems in auto)
  ultimately show ?case
    by (simp add: t load_mods_append endswith_jar_archive_name conj_commute)
qed

lemma regular_archives_cong:
  assumes "\<forall>(d, ds, fs) \<in> set triples. \<forall>f \<in> set fs.
             is_archive_name f \<longrightarrow> isfile W (path_join d f)"
  shows "map (\<lambda>(d, ds, fs). map (cache_entry L W d)
                [f \<leftarrow> fs. is_archive_name f \<and> size_readable W (path_join d f)]) triples
         = map (\<lambda>(d, ds, fs). map (cache_entry L W d)
                [f \<leftarrow> fs. is_archive_name f \<and> isfile W (path_join d f)
                             \<and> size_readable W (path_join d f)]) triples"
proof (rule map_cong [OF refl])
  fix t assume t: "t \<in> set triples"
  obtain d ds fs where e: "t = (d, ds, fs)" by (cases t)
  have "[f \<leftarrow> fs. is_archive_name f \<and> size_readable W (path_join d f)]
          = [f \<leftarrow> fs. is_archive_name f \<and> isfile W (path_join d f)
                       \<and> size_readable W (path_join d f)]"
    by (rule filter_cong [OF refl]) (use assms t e in auto)
  then show "(case t of (d, ds, fs) \<Rightarrow> map (cache_entry L W d)
                [f \<leftarrow> fs. is_archive_name f \<and> size_readable W (path_join d f)])
           = (case t of (d, ds, fs) \<Rightarrow> map (cache_entry L W d)
                [f \<leftarrow> fs. is_archive_name f \<and> isfile W (path_join d f)
                             \<and> size_readable W (path_join d f)])"
    by (simp add: e)
qed

lemma mods_insert_rows: "mods (insert_rows L ms s) = mods s"
  by (simp add: insert_rows_eq)

lemma map_snd_zip_upt: "map (\<lambda>x. f (snd x)) (zip [n ..< n + length ms] ms) = map f ms"
  by (rule nth_equalityI) simp_all

lemma mods_refresh_ok:
  assumes "path_exists W (cache_dir s) \<or> makedirs W (cache_dir s) = None"
  shows "mods (refresh_mod_list L W s) = load_mods L W (find_jar_files W (cache_dir s))"
    and "map snd (mod_tree (refresh_mod_list L W s))
           = map (row_of L) (load_mods L W (find_jar_files W (cache_dir s)))"
    and "status_var (refresh_mod_list L W s) =
          (if 0 < max_cache_size s
              \<and> of_int (max_cache_size s)
                   < (of_nat (fst (get_cache_size W (cache_dir s))) :: rat) / (1024 * 1024)
           then BudgetWarning (snd (get_cache_size W (cache_dir s))) (max_cache_size s)
           else Loaded (length (load_mods L W (find_jar_files W (cache_dir s))))
                  (snd (get_cache_size W (cache_dir s))))"
  unfolding refresh_ok [OF assms]
  by (simp_all add: insert_rows_eq comp_def map_snd_zip_upt)


text \<open>
  Claim C5, as amended. Let the cache directory exist or be created, let the walk list
  file names (without a separator), and let every listed file whose name ends with the
  archive extension, in any mix of capitals, be a regular file. Then the inventory after
  the rescan has exactly one entry for each listed file with such a name that is a regular
  file and whose size can be read, in the order of the walk: the name of the entry is the
  file name without the extension, its size is the one the file system reports, and its
  version is what \<^verbatim>\<open>parse_mod_version\<close> returns. A file whose metadata cannot be extracted
  is still listed, with no version. The rows of the widget show these entries. A file whose
  size cannot be read has no entry (lines 316 to 326 skip it), and no promise is made
  about a listed file that is not regular.
\<close>

theorem refresh_lists_every_archive:
  assumes "path_exists W (cache_dir s) \<or> makedirs W (cache_dir s) = None"
    and "\<forall>(d, ds, fs) \<in> set (os_walk W (cache_dir s)). \<forall>f \<in> set fs. CHR ''/'' \<notin> set f"
    and "\<forall>(d, ds, fs) \<in> set (os_walk W (cache_dir s)). \<forall>f \<in> set fs.
           is_archive_name f \<longrightarrow> isfile W (path_join d f)"
  shows "mods (refresh_mod_list L W s)
           = concat (map (\<lambda>(d, ds, fs). map (cache_entry L W d)
                             [f \<leftarrow> fs. is_archive_name f \<and> isfile W (path_join d f)
                                          \<and> size_readable W (path_join d f)])
                         (os_walk W (cache_dir s)))
         \<and> map snd (mod_tree (refresh_mod_list L W s))
             = map (row_of L) (mods (refresh_mod_list L W s))
         \<and> (\<forall>m \<in> set (mods (refresh_mod_list L W s)).
               (\<exists>e. parse_mod_version_body L W (file_path m) = Inl e) \<longrightarrow> version m = None)"
proof -
  have m: "mods (refresh_mod_list L W s)
           = concat (map (\<lambda>(d, ds, fs). map (cache_entry L W d)
                             [f \<leftarrow> fs. is_archive_name f \<and> isfile W (path_join d f)
                                          \<and> size_readable W (path_join d f)])
                         (os_walk W (cache_dir s)))"
    unfolding mods_refresh_ok(1) [OF assms(1)] find_jar_files_def
      load_mods_walk [OF assms(2)] regular_archives_cong [OF assms(3)]
    by (rule refl)
  have v: "\<forall>m \<in> set (mods (refresh_mod_list L W s)).
               (\<exists>e. parse_mod_version_body L W (file_path m) = Inl e) \<longrightarrow> version m = None"
    unfolding m by (auto simp: cache_entry_def parse_mod_version_def)
  show ?thesis
    using m v mods_refresh_ok(1,2) [OF assms(1), of L] by simp
qed

lemma example_walk:
  "os_walk example_world ''.modcache''
     = [(''.modcache'', [], [''A.jar'', ''B.jar'', ''notes.txt''])]"
  "cache_dir init_state = ''.modcache''"
  "path_exists example_world ''.modcache''"
  by (simp_all add: example_world_def init_state_def)

lemma example_joined:
  "path_join ''.modcache'' ''A.jar'' = ''.modcache/A.jar''"
  "path_join ''.modcache'' ''B.jar'' = ''.modcache/B.jar''"
  "path_join ''.modcache'' ''notes.txt'' = ''.modcache/notes.txt''"
  by (simp_all add: path_join_def startswith_def endswith_def suffix_def)

lemma example_archive_names:
  "is_archive_name ''A.jar''" "is_archive_name ''B.jar''" "\<not> is_archive_name ''notes.txt''"
  by (simp_all add: is_archive_name_def ascii_lower_def ascii_lower_char_def char_of_def bit_Suc_0_iff)

lemma example_getsize:
  "getsize example_world ''.modcache/A.jar'' = Inr 2048"
  "getsize example_world ''.modcache/B.jar'' = Inr 512"
  "getsize example_world ''.modcache/notes.txt'' = Inr 11531776"
  "isfile example_world ''.modcache/A.jar''"
  "isfile example_world ''.modcache/B.jar''"
  "isfile example_world ''.modcache/notes.txt''"
  by (simp_all add: example_world_def example_sizes_def)

lemma example_versions:
  "parse_mod_version example_lib example_world ''.modcache/A.jar'' = Some (TStr ''1.2.3'')"
  "parse_mod_version example_lib example_world ''.modcache/B.jar'' = None"
  by (simp_all add: parse_mod_version_def parse_mod_version_body_def example_open_zip
      example_toml_files zip_read_def example_lib_def version_of_doc_def str_in_single)

lemma capitals_walk:
  "os_walk capitals_world ''.modcache''
     = [(''.modcache'', [''sub''], [''Forge.JAR'', ''jar'']),
        (''.modcache/sub'', [], [''Old.Jar'', ''list.jars''])]"
  "path_exists capitals_world ''.modcache''"
  "isfile capitals_world p"
  "getsize capitals_world p = Inr 100"
  "open_zip capitals_world p = Inl BadZipFile"
  by (simp_all add: capitals_world_def)

lemma capitals_joined:
  "path_join ''.modcache'' ''Forge.JAR'' = ''.modcache/Forge.JAR''"
  "path_join ''.modcache/sub'' ''Old.Jar'' = ''.modcache/sub/Old.Jar''"
  by (simp_all add: path_join_def startswith_def endswith_def suffix_def)

lemma capitals_archive_names:
  "is_archive_name ''Forge.JAR''" "is_archive_name ''Old.Jar''"
  "\<not> is_archive_name ''jar''" "\<not> is_archive_name ''list.jars''"
  by (simp_all add: is_archive_name_def ascii_lower_def ascii_lower_char_def char_of_def bit_Suc_0_iff)

lemma odd_walk:
  "os_walk odd_world ''.modcache''
     = [(''.modcache'', [], [''A.jar'', ''sock.jar'', ''gone.jar''])]"
  "path_exists odd_world ''.modcache''"
  by (simp_all add: odd_world_def)

lemma odd_joined:
  "path_join ''.modcache'' ''sock.jar'' = ''.modcache/sock.jar''"
  "path_join ''.modcache'' ''gone.jar'' = ''.modcache/gone.jar''"
  by (simp_all add: path_join_def startswith_def endswith_def suffix_def)

lemma odd_archive_names:
  "is_archive_name ''sock.jar''" "is_archive_name ''gone.jar''"
  by (simp_all add: is_archive_name_def ascii_lower_def ascii_lower_char_def char_of_def bit_Suc_0_iff)

lemma odd_files:
  "getsize odd_world ''.modcache/A.jar'' = Inr 2048"
  "getsize odd_world ''.modcache/sock.jar'' = Inr 0"
  "getsize odd_world ''.modcache/gone.jar'' = Inl OSError"
  "isfile odd_world ''.modcache/A.jar''"
  "\<not> isfile odd_world ''.modcache/sock.jar''"
  "isfile odd_world ''.modcache/gone.jar''"
  "open_zip odd_world ''.modcache/A.jar'' = Inl BadZipFile"
  "open_zip odd_world ''.modcache/sock.jar'' = Inl OSError"
  by (simp_all add: odd_world_def)

text \<open>
  The example of the specification: \<^verbatim>\<open>A.jar\<close> declares version 1.2.3, \<^verbatim>\<open>B.jar\<close> has no
  metadata entry, and a third file is not an archive. In the second directory the
  extension is written \<^verbatim>\<open>.JAR\<close> and \<^verbatim>\<open>.Jar\<close>, one archive lies in a subdirectory, and
  the files \<^verbatim>\<open>jar\<close> and \<^verbatim>\<open>list.jars\<close> are not archives.
\<close>

theorem refresh_lists_every_archive_witness:
  "mods (refresh_mod_list example_lib example_world init_state)
     = [\<lparr>file_path = ''.modcache/A.jar'', name = ''A'', msize = 2048,
         version = Some (TStr ''1.2.3''), file_name = ''A.jar''\<rparr>,
        \<lparr>file_path = ''.modcache/B.jar'', name = ''B'', msize = 512,
         version = None, file_name = ''B.jar''\<rparr>]
   \<and> mods (refresh_mod_list example_lib capitals_world init_state)
     = [\<lparr>file_path = ''.modcache/Forge.JAR'', name = ''Forge'', msize = 100,
         version = None, file_name = ''Forge.JAR''\<rparr>,
        \<lparr>file_path = ''.modcache/sub/Old.Jar'', name = ''Old'', msize = 100,
         version = None, file_name = ''Old.Jar''\<rparr>]"
proof -
  have 1: "path_exists example_world (cache_dir init_state)
             \<or> makedirs example_world (cache_dir init_state) = None"
    by (simp add: example_walk)
  have 2: "\<forall>(d, ds, fs) \<in> set (os_walk example_world (cache_dir init_state)).
             \<forall>f \<in> set fs. CHR ''/'' \<notin> set f"
    by (simp add: example_walk)
  have 3: "\<forall>(d, ds, fs) \<in> set (os_walk example_world (cache_dir init_state)). \<forall>f \<in> set fs.
             is_archive_name f \<longrightarrow> isfile example_world (path_join d f)"
    by (simp add: example_walk example_joined example_getsize)
  have 4: "path_exists capitals_world (cache_dir init_state)
             \<or> makedirs capitals_world (cache_dir init_state) = None"
    by (simp add: example_walk capitals_walk)
  have 5: "\<forall>(d, ds, fs) \<in> set (os_walk capitals_world (cache_dir init_state)).
             \<forall>f \<in> set fs. CHR ''/'' \<notin> set f"
    by (simp add: example_walk capitals_walk)
  have 6: "\<forall>(d, ds, fs) \<in> set (os_walk capitals_world (cache_dir init_state)). \<forall>f \<in> set fs.
             is_archive_name f \<longrightarrow> isfile capitals_world (path_join d f)"
    by (simp add: capitals_walk)
  have a: "mods (refresh_mod_list example_lib example_world init_state)
     = [\<lparr>file_path = ''.modcache/A.jar'', name = ''A'', msize = 2048,
         version = Some (TStr ''1.2.3''), file_name = ''A.jar''\<rparr>,
        \<lparr>file_path = ''.modcache/B.jar'', name = ''B'', msize = 512,
         version = None, file_name = ''B.jar''\<rparr>]"
    using refresh_lists_every_archive [OF 1 2 3, of example_lib]
    by (simp add: example_walk example_archive_names cache_entry_def example_joined
        example_getsize example_versions size_readable_def)
  have b: "mods (refresh_mod_list example_lib capitals_world init_state)
     = [\<lparr>file_path = ''.modcache/Forge.JAR'', name = ''Forge'', msize = 100,
         version = None, file_name = ''Forge.JAR''\<rparr>,
        \<lparr>file_path = ''.modcache/sub/Old.Jar'', name = ''Old'', msize = 100,
         version = None, file_name = ''Old.Jar''\<rparr>]"
    using refresh_lists_every_archive [OF 4 5 6, of example_lib]
    by (simp add: example_walk capitals_walk capitals_archive_names cache_entry_def
        capitals_joined size_readable_def parse_mod_version_def parse_mod_version_body_def)
  show ?thesis using a b by simp
qed

text \<open>
  Claim C5 as stated fails in a directory where the walk lists \<^verbatim>\<open>A.jar\<close>, the socket
  \<^verbatim>\<open>sock.jar\<close> and \<^verbatim>\<open>gone.jar\<close>, a regular file whose size cannot be read any more. The
  regular files with the archive extension are \<^verbatim>\<open>A.jar\<close> and \<^verbatim>\<open>gone.jar\<close>; the inventory
  holds \<^verbatim>\<open>A.jar\<close> and \<^verbatim>\<open>sock.jar\<close>. The entry for the socket is there because lines 306 to
  309 test the name only, where \<^verbatim>\<open>get_cache_size\<close> tests \<^verbatim>\<open>os.path.isfile\<close> at line 265.
\<close>

theorem refresh_lists_every_archive_counterexample:
  "os_walk odd_world (cache_dir init_state)
     = [(''.modcache'', [], [''A.jar'', ''sock.jar'', ''gone.jar''])]
   \<and> [f \<leftarrow> [''A.jar'', ''sock.jar'', ''gone.jar''].
          is_archive_name f \<and> isfile odd_world (path_join ''.modcache'' f)]
       = [''A.jar'', ''gone.jar'']
   \<and> map file_name (mods (refresh_mod_list example_lib odd_world init_state))
       = [''A.jar'', ''sock.jar'']
   \<and> mods (refresh_mod_list example_lib odd_world init_state)
       = [\<lparr>file_path = ''.modcache/A.jar'', name = ''A'', msize = 2048,
           version = None, file_name = ''A.jar''\<rparr>,
          \<lparr>file_path = ''.modcache/sock.jar'', name = ''sock'', msize = 0,
           version = None, file_name = ''sock.jar''\<rparr>]"
proof -
  have ok: "path_exists odd_world (cache_dir init_state)
              \<or> makedirs odd_world (cache_dir init_state) = None"
    by (simp add: example_walk odd_walk)
  have f: "find_jar_files odd_world ''.modcache''
             = [''.modcache/A.jar'', ''.modcache/sock.jar'', ''.modcache/gone.jar'']"
    by (simp add: find_jar_files_def odd_walk endswith_jar_archive_name
        example_archive_names odd_archive_names example_joined odd_joined)
  have m: "mods (refresh_mod_list example_lib odd_world init_state)
       = [\<lparr>file_path = ''.modcache/A.jar'', name = ''A'', msize = 2048,
           version = None, file_name = ''A.jar''\<rparr>,
          \<lparr>file_path = ''.modcache/sock.jar'', name = ''sock'', msize = 0,
           version = None, file_name = ''sock.jar''\<rparr>]"
    unfolding mods_refresh_ok(1) [OF ok] example_walk(2) f
    by (simp add: odd_files basename_def Let_def ModInfo_def
        parse_mod_version_def parse_mod_version_body_def)
  show ?thesis
    using m
    by (simp add: example_walk odd_walk example_archive_names odd_archive_names
        example_joined odd_joined odd_files)
qed



subsection \<open>Importing\<close>

lemma import_loop_append:
  "import_loop W dir (xs @ ys) acc =
     (case import_loop W dir xs acc of
        (Break, acc') \<Rightarrow> (Break, acc')
      | (Continue, acc') \<Rightarrow> import_loop W dir ys acc')"
proof (induction xs arbitrary: acc)
  case Nil
  then show ?case by simp
next
  case (Cons x xs)
  obtain fl acc' where st: "import_step W dir x acc = (fl, acc')"
    by (cases "import_step W dir x acc")
  show ?case
    by (cases fl) (simp_all add: st Cons.IH)
qed

text \<open>
  Claim C9. Let the files before some file be processed without a cancel, and let a file
  of the same name exist at the destination when that file is reached, so that the dialog
  is shown. On the answer no the file is counted neither as imported nor as failed and the
  loop goes on with the files after it. On the answer cancel the loop ends at once: the
  files after it are not touched and the tally and the copies made so far stay.
\<close>

theorem import_skip_and_cancel:
  assumes before: "import_loop W dir pre acc0 = (Continue, acc)"
    and collides: "path_exists W (path_join dir (basename src))
                   \<or> path_join dir (basename src) \<in> set (written acc)"
  shows "import_loop W dir (pre @ (src, Some False, outcome) # post) acc0
           = import_loop W dir post acc
         \<and> import_loop W dir (pre @ (src, None, outcome) # post) acc0 = (Break, acc)"
  using assms by (simp add: import_loop_append import_step_def)

lemma example_paths:
  "path_join ''.modcache'' (basename ''/dl/A.jar'') = ''.modcache/A.jar''"
  "path_join ''.modcache'' (basename ''/dl/C.jar'') = ''.modcache/C.jar''"
  "path_join ''.modcache'' (basename ''/dl/D.jar'') = ''.modcache/D.jar''"
  by (simp_all add: path_join_def basename_def startswith_def endswith_def suffix_def)

lemma example_exists:
  "path_exists example_world ''.modcache/A.jar''"
  "\<not> path_exists example_world ''.modcache/C.jar''"
  "\<not> path_exists example_world ''.modcache/D.jar''"
  by (simp_all add: example_world_def example_sizes_def)

text \<open>
  Three files of which the second collides: skipping it gives two imported and none
  failed; cancelling at it leaves the one copy already made.
\<close>

theorem import_skip_and_cancel_witness:
  "import_loop example_world ''.modcache''
      [(''/dl/C.jar'', None, Copied), (''/dl/A.jar'', Some False, Copied),
       (''/dl/D.jar'', None, Copied)] import_start
     = (Continue, \<lparr>success_count = 2, fail_count = 0, failed_files = [],
                    written = [''.modcache/C.jar'', ''.modcache/D.jar'']\<rparr>)
   \<and> import_loop example_world ''.modcache''
      [(''/dl/C.jar'', None, Copied), (''/dl/A.jar'', None, Copied),
       (''/dl/D.jar'', None, Copied)] import_start
     = (Break, \<lparr>success_count = 1, fail_count = 0, failed_files = [],
                 written = [''.modcache/C.jar'']\<rparr>)"
proof -
  let ?acc = "\<lparr>success_count = 1, fail_count = 0, failed_files = [],
               written = [''.modcache/C.jar'']\<rparr>"
  have before: "import_loop example_world ''.modcache'' [(''/dl/C.jar'', None, Copied)] import_start
                  = (Continue, ?acc)"
    by (simp add: import_step_def example_paths example_exists import_start_def import_copy_def)
  have collides: "path_exists example_world (path_join ''.modcache'' (basename ''/dl/A.jar''))
                   \<or> path_join ''.modcache'' (basename ''/dl/A.jar'') \<in> set (written ?acc)"
    by (simp add: example_paths example_exists)
  have after: "import_loop example_world ''.modcache'' [(''/dl/D.jar'', None, Copied)] ?acc
                 = (Continue, \<lparr>success_count = 2, fail_count = 0, failed_files = [],
                    written = [''.modcache/C.jar'', ''.modcache/D.jar'']\<rparr>)"
    by (simp add: import_step_def example_paths example_exists import_copy_def)
  show ?thesis
    using import_skip_and_cancel [OF before collides, of Copied "[(''/dl/D.jar'', None, Copied)]"]
      after
    by simp
qed

subsection \<open>Searching\<close>

lemma str_in_empty: "str_in t [] \<longleftrightarrow> t = []"
  by (simp add: str_in_def)

lemma str_in_Nil: "str_in [] s"
  by (simp add: str_in_def)

lemma mod_matches_strings:
  assumes "\<forall>v. version m = Some v \<longrightarrow> (\<exists>t. v = TStr t)"
    and "str_lower L [] = []"
  shows "mod_matches L t m = Inr (entry_matches L t m)"
proof (cases "version m")
  case None
  then show ?thesis
    by (simp add: mod_matches_def version_matches_def entry_matches_def split: bool.splits)
next
  case (Some v)
  with assms obtain u where u: "v = TStr u" by auto
  show ?thesis
  proof (cases "u = []")
    case True
    show ?thesis
    proof (cases "t = []")
      case True
      then show ?thesis
        by (simp add: mod_matches_def entry_matches_def str_in_Nil)
    next
      case False
      with \<open>u = []\<close> Some u assms(2) show ?thesis
        by (simp add: mod_matches_def version_matches_def entry_matches_def
            str_in_empty split: bool.splits)
    qed
  next
    case False
    with Some u show ?thesis
      by (simp add: mod_matches_def version_matches_def entry_matches_def split: bool.splits)
  qed
qed

lemma filter_mods_strings:
  "\<forall>m \<in> set ms. \<forall>v. version m = Some v \<longrightarrow> (\<exists>t. v = TStr t) \<Longrightarrow> str_lower L [] = [] \<Longrightarrow>
     filter_mods L t ms = Inr (filter (entry_matches L t) ms)"
  by (induction ms) (simp_all add: mod_matches_strings)

lemma search_mods_nonempty:
  assumes "\<forall>m \<in> set (mods s). \<forall>v. version m = Some v \<longrightarrow> (\<exists>t. v = TStr t)"
    and "str_lower L [] = []"
    and "str_strip L (str_lower L q) \<noteq> []"
  shows "search_mods L W q s
           = Inr ((insert_rows L
                     (filter (entry_matches L (str_strip L (str_lower L q))) (mods s))
                     (s\<lparr>mod_tree := []\<rparr>))
                  \<lparr>status_var :=
                     Found (length (filter (entry_matches L (str_strip L (str_lower L q)))
                                      (mods s)))\<rparr>)"
  using assms(3) by (simp add: search_mods_def Let_def filter_mods_strings [OF assms(1,2)])

lemma search_mods_shown:
  assumes "\<forall>m \<in> set (mods s). \<forall>v. version m = Some v \<longrightarrow> (\<exists>t. v = TStr t)"
    and "str_lower L [] = []"
    and "str_strip L (str_lower L q) \<noteq> []"
  shows "case search_mods L W q s of
           Inl e \<Rightarrow> False
         | Inr s' \<Rightarrow>
             mods s' = mods s
             \<and> map snd (mod_tree s')
                 = map (row_of L)
                     (filter (entry_matches L (str_strip L (str_lower L q))) (mods s))
             \<and> status_var s'
                 = Found (length (filter (entry_matches L (str_strip L (str_lower L q)))
                                    (mods s)))"
  unfolding search_mods_nonempty [OF assms]
  by (simp add: insert_rows_eq map_snd_zip_upt comp_def)

lemma mod_matches_not_string:
  assumes "version m = Some v" and "truthy v" and "\<forall>t. v \<noteq> TStr t"
    and "\<not> str_in t (str_lower L (name m))"
  shows "mod_matches L t m = Inl AttributeError"
  using assms by (cases v) (simp_all add: mod_matches_def version_matches_def)

text \<open>
  Claim C7, as amended. \<^verbatim>\<open>str.lower()\<close> and \<^verbatim>\<open>str.strip()\<close> are those of the library,
  of which only \<^verbatim>\<open>''.lower() == ''\<close> is used. Let every version in the inventory be a
  string or absent, and let \<open>t\<close> be the search text, lower-cased and then stripped of the
  white space around it. If \<open>t\<close> is not empty, \<^verbatim>\<open>search_mods\<close> shows exactly the entries
  for which \<open>t\<close> occurs in the lower-cased name, version or file name, in the order of the
  inventory, and neither changes the inventory nor reads the disk. If \<open>t\<close> is empty,
  \<^verbatim>\<open>search_mods\<close> is a full rescan of the cache directory. The versions are required to be
  strings because line 549 calls \<^verbatim>\<open>mod.version.lower()\<close> on any version that is true in a
  Boolean context: on a version that is a number, an array or a table, and after a name
  that does not match, this raises \<^verbatim>\<open>AttributeError\<close>, which nothing catches.
\<close>

theorem search_mods_filters:
  assumes "\<forall>m \<in> set (mods s). \<forall>v. version m = Some v \<longrightarrow> (\<exists>t. v = TStr t)"
    and "str_lower L [] = []"
  shows "(str_strip L (str_lower L q) \<noteq> [] \<longrightarrow>
            (case search_mods L W q s of
               Inl e \<Rightarrow> False
             | Inr s' \<Rightarrow>
                 mods s' = mods s
                 \<and> map snd (mod_tree s')
                     = map (row_of L)
                         (filter (entry_matches L (str_strip L (str_lower L q))) (mods s))
                 \<and> status_var s'
                     = Found (length (filter (entry_matches L (str_strip L (str_lower L q)))
                                        (mods s)))))
         \<and> (str_strip L (str_lower L q) = [] \<longrightarrow>
              search_mods L W q s = Inr (refresh_mod_list L W s))"
  using search_mods_shown [OF assms, of q W]
  by (simp add: search_mods_def)

lemma example_mods_after_refresh:
  assumes "cache_dir s = ''.modcache''"
  shows "mods (refresh_mod_list example_lib example_world s)
     = [ModInfo ''.modcache/A.jar'' ''A'' 2048 (Some (TStr ''1.2.3'')),
        ModInfo ''.modcache/B.jar'' ''B'' 512 None]"
proof -
  have ok: "path_exists example_world (cache_dir s) \<or> makedirs example_world (cache_dir s) = None"
    by (simp add: assms example_walk)
  have "find_jar_files example_world ''.modcache'' = [''.modcache/A.jar'', ''.modcache/B.jar'']"
    by (simp add: find_jar_files_def example_walk endswith_jar_archive_name
        example_archive_names example_joined)
  then show ?thesis
    unfolding mods_refresh_ok(1) [OF ok] assms
    by (simp add: example_getsize example_versions basename_def Let_def)
qed

lemma example_lower_strip:
  "str_lower example_lib [] = []"
  "str_lower example_lib ''1.2'' = ''1.2''"
  "str_lower example_lib '' 1.2'' = '' 1.2''"
  "str_lower example_lib '' B.JAR '' = '' b.jar ''"
  "str_lower example_lib ''x'' = ''x''"
  "str_strip example_lib [] = []"
  "str_strip example_lib ''1.2'' = ''1.2''"
  "str_strip example_lib '' 1.2'' = ''1.2''"
  "str_strip example_lib '' b.jar '' = ''b.jar''"
  "str_strip example_lib ''x'' = ''x''"
  by (simp_all add: example_lib_def ascii_strip_def ascii_lower_def ascii_lower_char_def char_of_def bit_Suc_0_iff
      is_space_def)

lemma example_matches:
  "entry_matches example_lib ''1.2'' (ModInfo ''.modcache/A.jar'' ''A'' 2048 (Some (TStr ''1.2.3'')))"
  "\<not> entry_matches example_lib ''1.2'' (ModInfo ''.modcache/B.jar'' ''B'' 512 None)"
  "\<not> entry_matches example_lib '' 1.2''
       (ModInfo ''.modcache/A.jar'' ''A'' 2048 (Some (TStr ''1.2.3'')))"
  "\<not> entry_matches example_lib ''b.jar''
       (ModInfo ''.modcache/A.jar'' ''A'' 2048 (Some (TStr ''1.2.3'')))"
  "entry_matches example_lib ''b.jar'' (ModInfo ''.modcache/B.jar'' ''B'' 512 None)"
  by (simp_all add: entry_matches_def ModInfo_def str_in_def sublist_code example_lib_def
      ascii_lower_def ascii_lower_char_def char_of_def bit_Suc_0_iff basename_def)

text \<open>
  The example of the specification: searching 1.2 in the inventory of \<^verbatim>\<open>A\<close> with version
  1.2.3 and \<^verbatim>\<open>B\<close> without a version shows \<^verbatim>\<open>A\<close> only. Searching \<^verbatim>\<open>B.JAR\<close> between
  blanks shows \<^verbatim>\<open>B\<close> only, by its file name \<^verbatim>\<open>B.jar\<close>: both sides are lower-cased. The empty
  text is a rescan.
\<close>

theorem search_mods_filters_witness:
  "(case search_mods example_lib example_world ''1.2''
           (init_state\<lparr>mods := [ModInfo ''.modcache/A.jar'' ''A'' 2048 (Some (TStr ''1.2.3'')),
                                ModInfo ''.modcache/B.jar'' ''B'' 512 None]\<rparr>) of
      Inl e \<Rightarrow> False
    | Inr s' \<Rightarrow> map (\<lambda>r. (r_name r, r_version r)) (map snd (mod_tree s')) = [(''A'', ''1.2.3'')]
                  \<and> status_var s' = Found 1)
   \<and> (case search_mods example_lib example_world '' B.JAR ''
           (init_state\<lparr>mods := [ModInfo ''.modcache/A.jar'' ''A'' 2048 (Some (TStr ''1.2.3'')),
                                ModInfo ''.modcache/B.jar'' ''B'' 512 None]\<rparr>) of
      Inl e \<Rightarrow> False
    | Inr s' \<Rightarrow> map (\<lambda>r. (r_name r, r_path r)) (map snd (mod_tree s'))
                    = [(''B'', ''.modcache/B.jar'')]
                  \<and> status_var s' = Found 1)
   \<and> search_mods example_lib example_world []
           (init_state\<lparr>mods := [ModInfo ''.modcache/A.jar'' ''A'' 2048 (Some (TStr ''1.2.3'')),
                                ModInfo ''.modcache/B.jar'' ''B'' 512 None]\<rparr>)
       = Inr (refresh_mod_list example_lib example_world
           (init_state\<lparr>mods := [ModInfo ''.modcache/A.jar'' ''A'' 2048 (Some (TStr ''1.2.3'')),
                                ModInfo ''.modcache/B.jar'' ''B'' 512 None]\<rparr>))"
proof -
  let ?A = "ModInfo ''.modcache/A.jar'' ''A'' 2048 (Some (TStr ''1.2.3''))"
  let ?B = "ModInfo ''.modcache/B.jar'' ''B'' 512 None"
  let ?s = "init_state\<lparr>mods := [?A, ?B]\<rparr>"
  have strings: "\<forall>m \<in> set (mods ?s). \<forall>v. version m = Some v \<longrightarrow> (\<exists>t. v = TStr t)"
    by (simp add: ModInfo_def)
  have r: "map (\<lambda>r. (r_name r, r_version r)) (map (row_of example_lib) [?A]) = [(''A'', ''1.2.3'')]"
    by (simp add: row_of_def ModInfo_def version_cell_def)
  have rb: "map (\<lambda>r. (r_name r, r_path r)) (map (row_of example_lib) [?B])
              = [(''B'', ''.modcache/B.jar'')]"
    by (simp add: row_of_def ModInfo_def)
  note thm1 = search_mods_filters [OF strings example_lower_strip(1), of "''1.2''" example_world]
  note thm2 = search_mods_filters [OF strings example_lower_strip(1), of "[]" example_world]
  note thm3 = search_mods_filters [OF strings example_lower_strip(1), of "'' B.JAR ''" example_world]
  have two: "search_mods example_lib example_world [] ?s
               = Inr (refresh_mod_list example_lib example_world ?s)"
    using thm2 by (simp add: example_lower_strip)
  have one: "case search_mods example_lib example_world ''1.2'' ?s of
      Inl e \<Rightarrow> False
    | Inr s' \<Rightarrow> map (\<lambda>r. (r_name r, r_version r)) (map snd (mod_tree s')) = [(''A'', ''1.2.3'')]
                  \<and> status_var s' = Found 1"
  proof (cases "search_mods example_lib example_world ''1.2'' ?s")
    case (Inl e)
    with thm1 show ?thesis by (simp add: example_lower_strip)
  next
    case (Inr s')
    with thm1 have "map snd (mod_tree s') = map (row_of example_lib) [?A]"
      "status_var s' = Found 1"
      by (simp_all add: example_lower_strip example_matches)
    with r Inr show ?thesis by (simp only: sum.case)
  qed
  have three: "case search_mods example_lib example_world '' B.JAR '' ?s of
      Inl e \<Rightarrow> False
    | Inr s' \<Rightarrow> map (\<lambda>r. (r_name r, r_path r)) (map snd (mod_tree s'))
                    = [(''B'', ''.modcache/B.jar'')]
                  \<and> status_var s' = Found 1"
  proof (cases "search_mods example_lib example_world '' B.JAR '' ?s")
    case (Inl e)
    with thm3 show ?thesis by (simp add: example_lower_strip)
  next
    case (Inr s')
    with thm3 have "map snd (mod_tree s') = map (row_of example_lib) [?B]"
      "status_var s' = Found 1"
      by (simp_all add: example_lower_strip example_matches)
    with rb Inr show ?thesis by (simp only: sum.case)
  qed
  from one three two show ?thesis by simp
qed

text \<open>
  Claim C7 as stated fails three times. The text with a leading blank occurs in no field
  of \<^verbatim>\<open>A\<close>, and \<^verbatim>\<open>A\<close> is shown all the same, because the text is stripped. The empty
  text does not return the inventory as it is: the directory is scanned again, and an
  inventory that held a file since removed comes back with what the disk holds now. And
  on an entry whose version is the array that \<^verbatim>\<open>parse_mod_version\<close> reads from the
  metadata of its archive, a text that does not occur in the name makes \<^verbatim>\<open>search_mods\<close>
  raise \<^verbatim>\<open>AttributeError\<close> at line 549 instead of returning entries.
\<close>

theorem search_mods_counterexample:
  "(case search_mods example_lib example_world '' 1.2''
           (init_state\<lparr>mods := [ModInfo ''.modcache/A.jar'' ''A'' 2048 (Some (TStr ''1.2.3'')),
                                ModInfo ''.modcache/B.jar'' ''B'' 512 None]\<rparr>) of
      Inl e \<Rightarrow> False
    | Inr s' \<Rightarrow> map (\<lambda>r. (r_name r, r_version r)) (map snd (mod_tree s')) = [(''A'', ''1.2.3'')])
   \<and> \<not> entry_matches example_lib (str_lower example_lib '' 1.2'')
          (ModInfo ''.modcache/A.jar'' ''A'' 2048 (Some (TStr ''1.2.3'')))
   \<and> (case search_mods example_lib example_world []
           (init_state\<lparr>mods := [ModInfo ''.modcache/Z.jar'' ''Z'' 7 None]\<rparr>) of
         Inl e \<Rightarrow> False
       | Inr s' \<Rightarrow> map name (mods s') = [''A'', ''B''])
   \<and> map name (mods (init_state\<lparr>mods := [ModInfo ''.modcache/Z.jar'' ''Z'' 7 None]\<rparr>)) = [''Z'']
   \<and> parse_mod_version example_lib example_world ''dev/array.jar''
       = Some (TArr [TInt 1, TInt 2])
   \<and> search_mods example_lib example_world ''x''
         (init_state\<lparr>mods := [ModInfo ''dev/array.jar'' ''array'' 9
                                (parse_mod_version example_lib example_world ''dev/array.jar'')]\<rparr>)
       = Inl AttributeError"
proof -
  let ?A = "ModInfo ''.modcache/A.jar'' ''A'' 2048 (Some (TStr ''1.2.3''))"
  let ?B = "ModInfo ''.modcache/B.jar'' ''B'' 512 None"
  let ?s = "init_state\<lparr>mods := [?A, ?B]\<rparr>"
  let ?z = "init_state\<lparr>mods := [ModInfo ''.modcache/Z.jar'' ''Z'' 7 None]\<rparr>"
  have strings: "\<forall>m \<in> set (mods ?s). \<forall>v. version m = Some v \<longrightarrow> (\<exists>t. v = TStr t)"
    by (simp add: ModInfo_def)
  have ne: "str_strip example_lib (str_lower example_lib '' 1.2'') \<noteq> []"
    by (simp add: example_lower_strip)
  have r: "map (\<lambda>r. (r_name r, r_version r)) (map (row_of example_lib) [?A]) = [(''A'', ''1.2.3'')]"
    by (simp add: row_of_def ModInfo_def version_cell_def)
  note shown = search_mods_shown [OF strings example_lower_strip(1) ne, of example_world]
  have one: "case search_mods example_lib example_world '' 1.2'' ?s of
      Inl e \<Rightarrow> False
    | Inr s' \<Rightarrow> map (\<lambda>r. (r_name r, r_version r)) (map snd (mod_tree s')) = [(''A'', ''1.2.3'')]"
  proof (cases "search_mods example_lib example_world '' 1.2'' ?s")
    case (Inl e)
    with shown show ?thesis by simp
  next
    case (Inr s')
    with shown have "map snd (mod_tree s') = map (row_of example_lib) [?A]"
      by (simp add: example_lower_strip example_matches)
    with r Inr show ?thesis by (simp only: sum.case)
  qed
  have two: "\<not> entry_matches example_lib (str_lower example_lib '' 1.2'') ?A"
    by (simp add: example_lower_strip example_matches)
  have "search_mods example_lib example_world [] ?z
          = Inr (refresh_mod_list example_lib example_world ?z)"
    by (simp add: search_mods_def example_lower_strip)
  moreover have "map name (mods (refresh_mod_list example_lib example_world ?z)) = [''A'', ''B'']"
    by (simp add: example_mods_after_refresh init_state_def ModInfo_def)
  ultimately have three: "case search_mods example_lib example_world [] ?z of
         Inl e \<Rightarrow> False
       | Inr s' \<Rightarrow> map name (mods s') = [''A'', ''B'']"
    by simp
  have four: "map name (mods ?z) = [''Z'']" by (simp add: ModInfo_def)
  have five: "parse_mod_version example_lib example_world ''dev/array.jar''
                = Some (TArr [TInt 1, TInt 2])"
    by (simp add: parse_mod_version_def parse_mod_version_body_def example_open_zip
        example_toml_files zip_read_def example_lib_def version_of_doc_def)
  have nm: "\<not> str_in ''x'' (str_lower example_lib ''array'')"
    by (simp add: str_in_def sublist_code example_lib_def ascii_lower_def ascii_lower_char_def char_of_def bit_Suc_0_iff)
  have "mod_matches example_lib ''x'' (ModInfo ''dev/array.jar'' ''array'' 9
                                          (Some (TArr [TInt 1, TInt 2])))
          = Inl AttributeError"
    by (rule mod_matches_not_string [where v = "TArr [TInt 1, TInt 2]"])
       (simp_all add: ModInfo_def nm)
  then have six: "search_mods example_lib example_world ''x''
         (init_state\<lparr>mods := [ModInfo ''dev/array.jar'' ''array'' 9
                                (parse_mod_version example_lib example_world ''dev/array.jar'')]\<rparr>)
       = Inl AttributeError"
    by (simp add: search_mods_def five example_lower_strip)
  from one two three four five six show ?thesis by simp
qed

end
